theory Spec2Isabelle
  imports Main "HOL-Library.Sublist"
begin

section \<open>Values, exceptions and the observable world\<close>

text \<open>
  The script \<^verbatim>\<open>scripts/sync-org-repositories.py\<close> is embedded function by function.
  Python strings are \<^typ>\<open>string\<close>; a JSON object with string fields (a request
  payload, a response body) is an association list.  Everything the script does to
  the outside (printing, HTTP requests, sleeping, running git, touching files) is
  recorded, in order, in the \<open>events\<close> of an explicit world that every function
  takes and returns, next to the file system.  What the outside answers (an HTTP
  response, the outcome of a git command, the name of a temporary directory) is read
  from an environment of oracle functions, each of which sees the events so far.
\<close>

type_synonym path = string
type_synonym body = "(string \<times> string) list"

text \<open>Subclasses of Python's \<^verbatim>\<open>Exception\<close> that the script's handlers tell apart.\<close>

datatype exn =
    RequestException string
  | CalledProcessError "string list"
  | GitCommandError string
  | FileNotFoundError path
  | OtherException string

text \<open>An f-string is kept as the list of its pieces, interpolated values unrendered.\<close>

datatype piece = S string | I int | D body | E exn

datatype gitop =
    OpenRepo
  | RemoteSetUrl string string
  | CreateRemote string string
  | GitCmd "string list"
  | IndexCommit string

datatype event =
    Print "piece list"
  | Traceback exn
  | HttpRequest string string "body option"
  | Sleep nat
  | TemporaryDirectory path
  | Cleanup path
  | CheckCall "string list" path
  | Git path gitop
  | Makedirs path
  | Copy2 path path

text \<open>
  The sync configuration, as \<^verbatim>\<open>yaml.safe_load\<close> returns it.  One entry of
  \<^verbatim>\<open>files_to_sync\<close> has the required key \<^verbatim>\<open>source\<close>; \<^verbatim>\<open>destination\<close> and
  \<^verbatim>\<open>exclude_repos\<close> may be absent.  At the top level both \<^verbatim>\<open>files_to_sync\<close> and
  \<^verbatim>\<open>exclude_repos\<close> may be absent (\<open>None\<close>).
\<close>

record file_config =
  source :: string
  destination :: "string option"
  exclude_repos :: "string list option"

record config =
  files_to_sync :: "file_config list option"
  config_exclude_repos :: "string list option"

text \<open>
  The peribolos document: the key \<^verbatim>\<open>orgs\<close> may be absent; each organisation has,
  under the optional key \<^verbatim>\<open>repos\<close>, the names of its repositories in document order.
\<close>

type_synonym peribolos = "(string \<times> string list option) list option"

text \<open>
  The file system holds regular files only: a path, spelled as the script passes it
  to the operating system, is mapped to the bytes of the file.  Directories are not
  tracked.
\<close>

record world =
  fs :: "path \<rightharpoonup> string"
  events :: "event list"

datatype http_result =
    Response int "body option" string
  | RequestFailed string

record env =
  GITHUB_TOKEN :: "string option"
  script_root :: path
  http :: "event list \<Rightarrow> string \<Rightarrow> string \<Rightarrow> body option \<Rightarrow> http_result"
  mkdtemp :: "event list \<Rightarrow> exn + path"
  git_clone :: "event list \<Rightarrow> string list \<Rightarrow> exn + (path \<times> string) list"
  git :: "event list \<Rightarrow> path \<Rightarrow> gitop \<Rightarrow> exn + (path \<times> string) list option"
  strftime_now :: "event list \<Rightarrow> string"
  yaml_config :: "string \<Rightarrow> exn + config"
  yaml_peribolos :: "string \<Rightarrow> exn + peribolos"

definition emit :: "event \<Rightarrow> world \<Rightarrow> world" where
  "emit e w = w\<lparr>events := events w @ [e]\<rparr>"

definition print :: "piece list \<Rightarrow> world \<Rightarrow> world" where
  "print ps w = emit (Print ps) w"

definition newline :: char where
  "newline = CHR 0x0A"

definition dict_get :: "body \<Rightarrow> string \<Rightarrow> string \<Rightarrow> string" where
  "dict_get d k dflt = (case map_of d k of None \<Rightarrow> dflt | Some v \<Rightarrow> v)"

section \<open>Regular expressions of the allow-list\<close>

text \<open>
  The patterns of \<^verbatim>\<open>validate_github_api_request\<close> use literal characters, the
  dot, a negated one-character set \<^verbatim>\<open>[^c]\<close>, the quantifier \<^verbatim>\<open>+\<close> and the anchors
  \<^verbatim>\<open>^\<close> and \<^verbatim>\<open>$\<close>.  A pattern string is compiled to a list of items and matched
  from the start of the subject, as \<^verbatim>\<open>re.match\<close> does: the dot matches every
  character but a newline, a negated set every character but the one it names, and
  \<^verbatim>\<open>$\<close> matches at the end of the subject or before a newline that ends it.
\<close>

datatype cls = Exactly char | AnyButNewline | AnyBut char

datatype item = One cls | Plus cls | EndOfString

definition metachar :: "char \<Rightarrow> bool" where
  "metachar c = (c = CHR 0x5C \<or> c \<in> set ''[](){}*+?|^$.'')"

fun compile_items :: "string \<Rightarrow> item list \<Rightarrow> item list option" where
  "compile_items [] acc = Some (rev acc)"
| "compile_items (c # s) acc =
     (if c = CHR ''+'' then
        (case acc of One k # acc' \<Rightarrow> compile_items s (Plus k # acc') | _ \<Rightarrow> None)
      else if c = CHR ''$'' then compile_items s (EndOfString # acc)
      else if c = CHR ''.'' then compile_items s (One AnyButNewline # acc)
      else if c = CHR ''['' then
        (case s of
           a # d # e # s' \<Rightarrow>
             if a = CHR ''^'' \<and> e = CHR '']'' \<and> \<not> metachar d
             then compile_items s' (One (AnyBut d) # acc) else None
         | _ \<Rightarrow> None)
      else if metachar c then None
      else compile_items s (One (Exactly c) # acc))"

definition re_compile :: "string \<Rightarrow> item list option" where
  "re_compile pattern =
     (case pattern of
        c # p \<Rightarrow> if c = CHR ''^'' then compile_items p [] else compile_items (c # p) []
      | [] \<Rightarrow> Some [])"

fun cls_ok :: "cls \<Rightarrow> char \<Rightarrow> bool" where
  "cls_ok (Exactly c) x = (x = c)"
| "cls_ok AnyButNewline x = (x \<noteq> newline)"
| "cls_ok (AnyBut c) x = (x \<noteq> c)"

fun items_match :: "item list \<Rightarrow> string \<Rightarrow> bool" where
  "items_match [] s = True"
| "items_match (EndOfString # is) s = ((s = [] \<or> s = [newline]) \<and> items_match is s)"
| "items_match (One c # is) [] = False"
| "items_match (One c # is) (x # xs) = (cls_ok c x \<and> items_match is xs)"
| "items_match (Plus c # is) [] = False"
| "items_match (Plus c # is) (x # xs) =
     (cls_ok c x \<and> (items_match is xs \<or> items_match (Plus c # is) xs))"

definition re_match :: "string \<Rightarrow> string \<Rightarrow> bool" where
  "re_match pattern s =
     (case re_compile pattern of None \<Rightarrow> False | Some is \<Rightarrow> items_match is s)"

section \<open>Remote gateway\<close>

definition GITHUB_API :: string where
  "GITHUB_API = ''https://api.github.com''"

definition allowed_patterns :: "(string \<times> string) list" where
  "allowed_patterns =
     [(''^'' @ GITHUB_API @ ''/user$'', ''GET''),
      (''^'' @ GITHUB_API @ ''/repos/[^/]+/[^/]+$'', ''GET''),
      (''^'' @ GITHUB_API @ ''/repos/[^/]+/[^/]+/forks$'', ''POST''),
      (''^'' @ GITHUB_API @ ''/repos/[^/]+/[^/]+/pulls$'', ''POST''),
      (''^'' @ GITHUB_API @ ''/repos/[^/]+/[^/]+/git/refs/heads/.+$'', ''DELETE'')]"

definition validate_github_api_request :: "string \<Rightarrow> string \<Rightarrow> bool" where
  "validate_github_api_request endpoint method =
     list_ex (\<lambda>(pattern, allowed_method). re_match pattern endpoint \<and> method = allowed_method)
       allowed_patterns"

text \<open>
  \<^verbatim>\<open>github_api_request\<close>: the guard first; then one request, whose outcome the
  environment decides.  A body that is not JSON comes back as \<^verbatim>\<open>{"raw": text}\<close>, a
  transport failure as status 500.
\<close>

definition github_api_request ::
  "env \<Rightarrow> string \<Rightarrow> string \<Rightarrow> body option \<Rightarrow> world \<Rightarrow> (int \<times> body) \<times> world" where
  "github_api_request env endpoint method data w =
     (if \<not> validate_github_api_request endpoint method then
        ((403, [(''error'', ''Endpoint not allowed'')]),
         print [S ''Error: Endpoint '', S endpoint, S '' with method '', S method,
                S '' is not allowed''] w)
      else
        let url = endpoint;
            w1 = emit (HttpRequest method url data) w
        in case http env (events w) method url data of
             Response status_code js txt \<Rightarrow>
               ((status_code, (case js of Some response_data \<Rightarrow> response_data
                                        | None \<Rightarrow> [(''raw'', txt)])), w1)
           | RequestFailed e \<Rightarrow>
               ((500, [(''error'', e)]),
                print [S ''API request failed: '', E (RequestException e)] w1))"

definition get_authenticated_user :: "env \<Rightarrow> world \<Rightarrow> string option \<times> world" where
  "get_authenticated_user env w =
     (let url = GITHUB_API @ ''/user'';
          ((status, data), w1) = github_api_request env url ''GET'' None w
      in if status = 200 then (map_of data ''login'', w1)
         else (None, print [S ''Failed to get authenticated user (HTTP '', I status,
                            S ''): '', D data] w1))"

text \<open>\<^verbatim>\<open>check_fork_exists\<close> returns \<^verbatim>\<open>True\<close> or falls off its end (\<^verbatim>\<open>None\<close>).\<close>

definition check_fork_exists ::
  "env \<Rightarrow> string \<Rightarrow> string \<Rightarrow> string \<Rightarrow> world \<Rightarrow> bool option \<times> world" where
  "check_fork_exists env org repo_name fork_owner w =
     (let url = GITHUB_API @ ''/repos/'' @ fork_owner @ ''/'' @ repo_name;
          ((status, _), w1) = github_api_request env url ''GET'' None w
      in if status = 200 then (Some True, w1) else (None, w1))"

definition truthy :: "bool option \<Rightarrow> bool" where
  "truthy r = (r = Some True)"

definition create_fork :: "env \<Rightarrow> string \<Rightarrow> string \<Rightarrow> world \<Rightarrow> bool \<times> world" where
  "create_fork env org repo_name w =
     (let w0 = print [S ''Creating fork of '', S org, S ''/'', S repo_name, S ''...''] w;
          url = GITHUB_API @ ''/repos/'' @ org @ ''/'' @ repo_name @ ''/forks'';
          ((status, data), w1) = github_api_request env url ''POST'' (Some []) w0
      in if status = 202 then
           (True, emit (Sleep 5)
                    (print [S ''Fork created successfully, waiting for it to be ready...''] w1))
         else if status = 200 then (True, print [S ''Fork already exists''] w1)
         else (False, print [S ''Failed to create fork (HTTP '', I status, S ''): '', D data] w1))"

definition delete_fork_branch ::
  "env \<Rightarrow> string \<Rightarrow> string \<Rightarrow> string \<Rightarrow> world \<Rightarrow> bool \<times> world" where
  "delete_fork_branch env fork_owner repo_name branch_name w =
     (let ((status, _), w1) =
            github_api_request env
              (''/repos/'' @ fork_owner @ ''/'' @ repo_name @ ''/git/refs/heads/'' @ branch_name)
              ''DELETE'' None w
      in (status = 204, w1))"

text \<open>The network requests among a list of events.\<close>

fun is_request :: "event \<Rightarrow> bool" where
  "is_request (HttpRequest m u d) = True"
| "is_request _ = False"

definition requests :: "world \<Rightarrow> event list" where
  "requests w = filter is_request (events w)"

section \<open>Paths and files\<close>

text \<open>\<^verbatim>\<open>os.path.join\<close> for two components: an absolute second component wins.\<close>

definition os_path_join :: "path \<Rightarrow> path \<Rightarrow> path" where
  "os_path_join a b =
     (if b \<noteq> [] \<and> hd b = CHR ''/'' then b
      else if a = [] \<or> last a = CHR ''/'' then a @ b
      else a @ ''/'' @ b)"

text \<open>
  \<^verbatim>\<open>os.path.dirname\<close>: everything up to the last slash, trailing slashes removed
  unless nothing else is left.
\<close>

definition os_path_dirname :: "path \<Rightarrow> path" where
  "os_path_dirname p =
     (let head = rev (dropWhile (\<lambda>c. c \<noteq> CHR ''/'') (rev p))
      in if head \<noteq> [] \<and> \<not> list_all (\<lambda>c. c = CHR ''/'') head
         then rev (dropWhile (\<lambda>c. c = CHR ''/'') (rev head)) else head)"

fun split_on :: "char \<Rightarrow> string \<Rightarrow> string list" where
  "split_on c [] = [[]]"
| "split_on c (x # xs) =
     (if x = c then [] # split_on c xs
      else (case split_on c xs of y # ys \<Rightarrow> (x # y) # ys | [] \<Rightarrow> [[x]]))"

fun join_with :: "string \<Rightarrow> string list \<Rightarrow> string" where
  "join_with sep [] = []"
| "join_with sep [x] = x"
| "join_with sep (x # y # ys) = x @ sep @ join_with sep (y # ys)"

text \<open>
  The \<^verbatim>\<open>/\<close> of \<^verbatim>\<open>pathlib\<close>, as the string of the resulting path: the two parts are
  joined like \<^verbatim>\<open>os.path.join\<close>, then empty and \<^verbatim>\<open>.\<close> components are dropped; one
  leading slash, or exactly two, are kept as the root.
\<close>

definition pathlib_join :: "path \<Rightarrow> path \<Rightarrow> path" where
  "pathlib_join a b =
     (let p = os_path_join a b;
          (root, rel) =
            (if take 1 p \<noteq> ''/'' then ([], p)
             else if take 1 (drop 1 p) \<noteq> ''/'' \<or> take 1 (drop 2 p) = ''/''
               then (''/'', drop 1 p)
             else (''//'', drop 2 p));
          parts = filter (\<lambda>x. x \<noteq> [] \<and> x \<noteq> ''.'') (split_on CHR ''/'' rel);
          s = root @ join_with ''/'' parts
      in if s = [] then ''.'' else s)"

definition os_path_exists :: "(path \<rightharpoonup> string) \<Rightarrow> path \<Rightarrow> bool" where
  "os_path_exists files p = (files p \<noteq> None)"

text \<open>\<^verbatim>\<open>filecmp.cmp(f1, f2, shallow=False)\<close>: both files are read and compared byte for byte.\<close>

definition filecmp_cmp :: "(path \<rightharpoonup> string) \<Rightarrow> path \<Rightarrow> path \<Rightarrow> exn + bool" where
  "filecmp_cmp files f1 f2 =
     (case files f1 of
        None \<Rightarrow> Inl (FileNotFoundError f1)
      | Some a \<Rightarrow> (case files f2 of None \<Rightarrow> Inl (FileNotFoundError f2) | Some b \<Rightarrow> Inr (a = b)))"

text \<open>
  \<^verbatim>\<open>os.makedirs(d, exist_ok=True)\<close>: directories are not tracked, so the call is
  recorded and changes no file.  \<^verbatim>\<open>shutil.copy2\<close> writes the bytes of the source to
  the destination, and raises when the source does not exist.
\<close>

definition os_makedirs :: "path \<Rightarrow> world \<Rightarrow> world" where
  "os_makedirs d w = emit (Makedirs d) w"

definition shutil_copy2 :: "path \<Rightarrow> path \<Rightarrow> world \<Rightarrow> (exn + unit) \<times> world" where
  "shutil_copy2 src dst w =
     (case fs w src of
        None \<Rightarrow> (Inl (FileNotFoundError src), w)
      | Some c \<Rightarrow> (Inr (), emit (Copy2 src dst) (w\<lparr>fs := (fs w)(dst \<mapsto> c)\<rparr>)))"

section \<open>File reconciler\<close>

definition compare_files :: "(path \<rightharpoonup> string) \<Rightarrow> path \<Rightarrow> path \<Rightarrow> exn + bool" where
  "compare_files files source_file dest_file =
     (if \<not> os_path_exists files dest_file then Inr False
      else filecmp_cmp files source_file dest_file)"

definition sync_file :: "path \<Rightarrow> path \<Rightarrow> string \<Rightarrow> world \<Rightarrow> (exn + bool) \<times> world" where
  "sync_file source_path dest_path relative_path w =
     (let w1 = os_makedirs (os_path_dirname dest_path) w;
          copy = (\<lambda>w2. case shutil_copy2 source_path dest_path w2 of
                         (Inl e, w3) \<Rightarrow> (Inl e, w3)
                       | (Inr _, w3) \<Rightarrow> (Inr True, w3))
      in if os_path_exists (fs w1) dest_path then
           (case compare_files (fs w1) source_path dest_path of
              Inl e \<Rightarrow> (Inl e, w1)
            | Inr True \<Rightarrow> (Inr False, print [S relative_path, S '' is up to date''] w1)
            | Inr False \<Rightarrow> copy (print [S relative_path, S '' needs update''] w1))
         else copy (print [S relative_path, S '' is missing''] w1))"

text \<open>
  The body of the loop of step 3 of \<^verbatim>\<open>sync_repository\<close>, for one entry: the list of
  changed files so far and the world go in, and come out updated.
\<close>

definition process_file_config ::
  "path \<Rightarrow> path \<Rightarrow> string \<Rightarrow> bool \<Rightarrow> file_config \<Rightarrow> string list \<Rightarrow> world
     \<Rightarrow> (exn + string list) \<times> world" where
  "process_file_config source_root repo_path repo_name dry_run fc files_changed w =
     (let source_rel_path = source fc;
          dest_rel_path = (case destination fc of None \<Rightarrow> source_rel_path | Some d \<Rightarrow> d);
          source_path = pathlib_join source_root source_rel_path;
          dest_path = os_path_join repo_path dest_rel_path
      in if \<not> os_path_exists (fs w) source_path then
           (Inr files_changed, print [S ''Source file not found: '', S source_rel_path] w)
         else if (case exclude_repos fc of None \<Rightarrow> False | Some ex \<Rightarrow> repo_name \<in> set ex) then
           (Inr files_changed, print [S source_rel_path, S '' excluded for this repo''] w)
         else if dry_run then
           (if \<not> os_path_exists (fs w) dest_path then
              (Inr (files_changed @ [dest_rel_path]),
               print [S ''[DRY RUN] Would add: '', S dest_rel_path] w)
            else
              (case compare_files (fs w) source_path dest_path of
                 Inl e \<Rightarrow> (Inl e, w)
               | Inr False \<Rightarrow>
                   (Inr (files_changed @ [dest_rel_path]),
                    print [S ''[DRY RUN] Would update: '', S dest_rel_path] w)
               | Inr True \<Rightarrow> (Inr files_changed, print [S dest_rel_path, S '' is up to date''] w)))
         else
           (case sync_file source_path dest_path dest_rel_path w of
              (Inl e, w1) \<Rightarrow> (Inl e, w1)
            | (Inr True, w1) \<Rightarrow> (Inr (files_changed @ [dest_rel_path]), w1)
            | (Inr False, w1) \<Rightarrow> (Inr files_changed, w1)))"

fun process_files ::
  "path \<Rightarrow> path \<Rightarrow> string \<Rightarrow> bool \<Rightarrow> file_config list \<Rightarrow> string list \<Rightarrow> world
     \<Rightarrow> (exn + string list) \<times> world" where
  "process_files source_root repo_path repo_name dry_run [] files_changed w =
     (Inr files_changed, w)"
| "process_files source_root repo_path repo_name dry_run (fc # rest) files_changed w =
     (case process_file_config source_root repo_path repo_name dry_run fc files_changed w of
        (Inl e, w1) \<Rightarrow> (Inl e, w1)
      | (Inr files_changed1, w1) \<Rightarrow>
          process_files source_root repo_path repo_name dry_run rest files_changed1 w1)"

section \<open>Git working trees\<close>

text \<open>
  A checkout is a list of files, each a path relative to the top of the working tree
  and its bytes.  Putting a checkout at \<open>repo_path\<close> replaces every file below it.
\<close>

definition under :: "path \<Rightarrow> path \<Rightarrow> bool" where
  "under dir p = prefix (dir @ ''/'') p"

definition checkout_tree ::
  "path \<Rightarrow> (path \<times> string) list \<Rightarrow> (path \<rightharpoonup> string) \<Rightarrow> (path \<rightharpoonup> string)" where
  "checkout_tree repo_path tree files =
     (\<lambda>p. if under repo_path p
          then map_of (map (\<lambda>(rel, c). (os_path_join repo_path rel, c)) tree) p
          else files p)"

definition remove_tree :: "path \<Rightarrow> (path \<rightharpoonup> string) \<Rightarrow> (path \<rightharpoonup> string)" where
  "remove_tree dir files = (\<lambda>p. if under dir p then None else files p)"

text \<open>
  One call into GitPython on the repository at \<open>repo_path\<close>.  The environment decides
  whether it raises; a command that succeeds may replace the working tree.
\<close>

definition run_git :: "env \<Rightarrow> path \<Rightarrow> gitop \<Rightarrow> world \<Rightarrow> (exn + unit) \<times> world" where
  "run_git env repo_path op w =
     (let w1 = emit (Git repo_path op) w
      in case git env (events w) repo_path op of
           Inl e \<Rightarrow> (Inl e, w1)
         | Inr None \<Rightarrow> (Inr (), w1)
         | Inr (Some tree) \<Rightarrow> (Inr (), w1\<lparr>fs := checkout_tree repo_path tree (fs w1)\<rparr>))"

definition is_GitCommandError :: "exn \<Rightarrow> bool" where
  "is_GitCommandError e = (case e of GitCommandError m \<Rightarrow> True | _ \<Rightarrow> False)"

definition is_CalledProcessError :: "exn \<Rightarrow> bool" where
  "is_CalledProcessError e = (case e of CalledProcessError c \<Rightarrow> True | _ \<Rightarrow> False)"

text \<open>The token as an f-string renders it: \<^verbatim>\<open>None\<close> when the variable is unset.\<close>

definition token_str :: "env \<Rightarrow> string" where
  "token_str env = (case GITHUB_TOKEN env of None \<Rightarrow> ''None'' | Some t \<Rightarrow> t)"

definition setup_git_credentials ::
  "env \<Rightarrow> path \<Rightarrow> string \<Rightarrow> string \<Rightarrow> world \<Rightarrow> (exn + unit) \<times> world" where
  "setup_git_credentials env repo_path fork_owner repo_name w =
     (case run_git env repo_path OpenRepo w of
        (Inl e, w1) \<Rightarrow> (Inl e, w1)
      | (Inr _, w1) \<Rightarrow>
          let fork_url = ''https://x-access-token:'' @ token_str env @ ''@github.com/''
                           @ fork_owner @ ''/'' @ repo_name @ ''.git''
          in case run_git env repo_path (RemoteSetUrl ''origin'' fork_url) w1 of
               (Inl e, w2) \<Rightarrow> run_git env repo_path (CreateRemote ''origin'' fork_url) w2
             | (Inr _, w2) \<Rightarrow> (Inr (), w2))"

fun git_add_all :: "env \<Rightarrow> path \<Rightarrow> string list \<Rightarrow> world \<Rightarrow> (exn + unit) \<times> world" where
  "git_add_all env repo_path [] w = (Inr (), w)"
| "git_add_all env repo_path (file_path # rest) w =
     (case run_git env repo_path (GitCmd [''add'', file_path]) w of
        (Inl e, w1) \<Rightarrow> (Inl e, w1)
      | (Inr _, w1) \<Rightarrow> git_add_all env repo_path rest w1)"

text \<open>
  \<^verbatim>\<open>create_branch_and_commit\<close>: a \<^verbatim>\<open>GitCommandError\<close> raised after the repository
  is opened is caught and gives \<^verbatim>\<open>False\<close>; any other exception leaves the function.
\<close>

definition create_branch_and_commit ::
  "env \<Rightarrow> path \<Rightarrow> string \<Rightarrow> string list \<Rightarrow> string \<Rightarrow> world \<Rightarrow> (exn + bool) \<times> world" where
  "create_branch_and_commit env repo_path branch_name files_changed commit_message w =
     (case run_git env repo_path OpenRepo w of
        (Inl e, w1) \<Rightarrow> (Inl e, w1)
      | (Inr _, w1) \<Rightarrow>
          let attempt =
                (case run_git env repo_path (GitCmd [''checkout'', ''-b'', branch_name]) w1 of
                   (Inl e, w2) \<Rightarrow> (Inl e, w2)
                 | (Inr _, w2) \<Rightarrow>
                     (case git_add_all env repo_path files_changed w2 of
                        (Inl e, w3) \<Rightarrow> (Inl e, w3)
                      | (Inr _, w3) \<Rightarrow>
                          (case run_git env repo_path (IndexCommit commit_message) w3 of
                             (Inl e, w4) \<Rightarrow> (Inl e, w4)
                           | (Inr _, w4) \<Rightarrow>
                               (case run_git env repo_path
                                       (GitCmd [''push'', ''--set-upstream'', ''origin'', branch_name])
                                       w4 of
                                  (Inl e, w5) \<Rightarrow> (Inl e, w5)
                                | (Inr _, w5) \<Rightarrow>
                                    (Inr True, print [S ''Pushed branch: '', S branch_name] w5)))))
          in case attempt of
               (Inl e, w6) \<Rightarrow>
                 if is_GitCommandError e
                 then (Inr False, print [S ''Git operation failed: '', E e] w6)
                 else (Inl e, w6)
             | (Inr r, w6) \<Rightarrow> (Inr r, w6))"

definition create_pull_request ::
  "env \<Rightarrow> string \<Rightarrow> string \<Rightarrow> string \<Rightarrow> string \<Rightarrow> string \<Rightarrow> string \<Rightarrow> string \<Rightarrow> world
     \<Rightarrow> bool \<times> world" where
  "create_pull_request env org repo_name fork_owner branch_name title pr_body base_branch w =
     (let data = [(''title'', title), (''body'', pr_body), (''base'', base_branch),
                  (''head'', fork_owner @ '':'' @ branch_name)];
          ((status, response_data), w1) =
            github_api_request env (GITHUB_API @ ''/repos/'' @ org @ ''/'' @ repo_name @ ''/pulls'')
              ''POST'' (Some data) w
      in if status = 201 then
           (True, print [S ''Pull request created successfully: '',
                         S (dict_get response_data ''html_url'' [])] w1)
         else
           (False, print [S ''Failed to create PR (HTTP '', I status, S ''): '',
                          S (dict_get response_data ''message'' ''Unknown error'')] w1))"

section \<open>Contribution driver\<close>

text \<open>
  \<^verbatim>\<open>sync_repository\<close> is one function in the script; here each of its numbered steps
  is a definition of its own, and \<open>sync_repository\<close> puts them together.
\<close>

text \<open>Step 1 (skipped in a dry run): make sure that the fork exists.\<close>

definition ensure_fork ::
  "env \<Rightarrow> string \<Rightarrow> string \<Rightarrow> string \<Rightarrow> bool \<Rightarrow> world \<Rightarrow> bool \<times> world" where
  "ensure_fork env org repo_name fork_owner dry_run w =
     (if \<not> dry_run then
        (case check_fork_exists env org repo_name fork_owner w of
           (r, w1) \<Rightarrow>
             if \<not> truthy r then
               (case create_fork env org repo_name w1 of
                  (False, w2) \<Rightarrow>
                    (False, print [S ''Failed to create fork, skipping '', S repo_name] w2)
                | (True, w2) \<Rightarrow> (True, w2))
             else
               (True, print [S ''Fork '', S fork_owner, S ''/'', S repo_name,
                             S '' already exists''] w1))
      else (True, w))"

text \<open>
  The part of step 2 that only a real run executes: credentials, the \<^verbatim>\<open>upstream\<close>
  remote (any failure to add it is ignored), and the reset of \<^verbatim>\<open>main\<close> to
  \<^verbatim>\<open>upstream/main\<close>, where a \<^verbatim>\<open>GitCommandError\<close> is only a warning.  Each of the
  two inner \<^verbatim>\<open>try\<close> blocks is a definition of its own.
\<close>

definition add_upstream_remote :: "env \<Rightarrow> path \<Rightarrow> string \<Rightarrow> world \<Rightarrow> world" where
  "add_upstream_remote env repo_path upstream_url w =
     (case run_git env repo_path (CreateRemote ''upstream'' upstream_url) w of
        (Inl e, w1) \<Rightarrow> w1
      | (Inr _, w1) \<Rightarrow> print [S ''Added upstream remote''] w1)"

definition fetch_latest_from_upstream :: "env \<Rightarrow> path \<Rightarrow> world \<Rightarrow> (exn + unit) \<times> world" where
  "fetch_latest_from_upstream env repo_path w =
     (let attempt =
            (case run_git env repo_path (GitCmd [''fetch'', ''upstream'']) w of
               (Inl e, w1) \<Rightarrow> (Inl e, w1)
             | (Inr _, w1) \<Rightarrow>
                 (case run_git env repo_path (GitCmd [''checkout'', ''main'']) w1 of
                    (Inl e, w2) \<Rightarrow> (Inl e, w2)
                  | (Inr _, w2) \<Rightarrow>
                      (case run_git env repo_path
                              (GitCmd [''reset'', ''--hard'', ''upstream/main'']) w2 of
                         (Inl e, w3) \<Rightarrow> (Inl e, w3)
                       | (Inr _, w3) \<Rightarrow> (Inr (), print [S ''Synced fork with upstream''] w3))))
      in case attempt of
           (Inl e, w4) \<Rightarrow>
             if is_GitCommandError e
             then (Inr (), print [S ''Warning: Could not sync with upstream: '', E e] w4)
             else (Inl e, w4)
         | (Inr u, w4) \<Rightarrow> (Inr u, w4))"

definition sync_fork_with_upstream ::
  "env \<Rightarrow> path \<Rightarrow> string \<Rightarrow> string \<Rightarrow> string \<Rightarrow> world \<Rightarrow> (exn + unit) \<times> world" where
  "sync_fork_with_upstream env repo_path fork_owner repo_name upstream_url w =
     (case setup_git_credentials env repo_path fork_owner repo_name w of
        (Inl e, w1) \<Rightarrow> (Inl e, w1)
      | (Inr _, w1) \<Rightarrow>
          (case run_git env repo_path OpenRepo w1 of
             (Inl e, w2) \<Rightarrow> (Inl e, w2)
           | (Inr _, w2) \<Rightarrow>
               fetch_latest_from_upstream env repo_path
                 (add_upstream_remote env repo_path upstream_url w2)))"

text \<open>
  Step 2: clone (upstream in a dry run, the fork otherwise) into the temporary
  directory.  \<^verbatim>\<open>git clone\<close> puts the checkout into the directory named after the
  repository.
\<close>

definition acquire_working_tree ::
  "env \<Rightarrow> string \<Rightarrow> string \<Rightarrow> string \<Rightarrow> bool \<Rightarrow> path \<Rightarrow> world \<Rightarrow> (exn + path) \<times> world" where
  "acquire_working_tree env org repo_name fork_owner dry_run tmpdir w =
     (let fork_url = ''https://github.com/'' @ fork_owner @ ''/'' @ repo_name @ ''.git'';
          upstream_url = ''https://github.com/'' @ org @ ''/'' @ repo_name @ ''.git'';
          w1 = (if dry_run then print [S ''[DRY RUN] Would clone fork: '', S fork_url] w else w);
          clone_url = (if dry_run then upstream_url else fork_url);
          w2 = print [S ''Cloning '', S clone_url, S ''...''] w1;
          cmd = [''git'', ''clone'', ''--quiet'', clone_url];
          w3 = emit (CheckCall cmd tmpdir) w2
      in case git_clone env (events w2) cmd of
           Inl e \<Rightarrow> (Inl e, w3)
         | Inr tree \<Rightarrow>
             let repo_path = os_path_join tmpdir repo_name;
                 w4 = w3\<lparr>fs := checkout_tree repo_path tree (fs w3)\<rparr>
             in if \<not> dry_run then
                  (case sync_fork_with_upstream env repo_path fork_owner repo_name upstream_url w4 of
                     (Inl e, w5) \<Rightarrow> (Inl e, w5)
                   | (Inr _, w5) \<Rightarrow> (Inr repo_path, w5))
                else (Inr repo_path, w4))"

text \<open>What follows the loop of step 3: the early successes, then steps 4 and 5.\<close>

definition publish_changes ::
  "env \<Rightarrow> string \<Rightarrow> string \<Rightarrow> string \<Rightarrow> path \<Rightarrow> bool \<Rightarrow> string list \<Rightarrow> world
     \<Rightarrow> (exn + bool) \<times> world" where
  "publish_changes env org repo_name fork_owner repo_path dry_run files_changed w =
     (if files_changed = [] then
        (Inr True, print [S ''All files up to date for '', S repo_name] w)
      else if dry_run then
        (Inr True, print [S ''[DRY RUN] Would create PR with '', I (int (length files_changed)),
                          S '' file(s)''] w)
      else
        let branch_name = ''sync-repo-standards-'' @ strftime_now env (events w);
            commit_message = ''chore: sync repository standards'' @ [newline, newline]
                               @ ''Updated files:'' @ [newline]
                               @ join_with [newline] (map (\<lambda>f. ''- '' @ f) files_changed);
            w1 = print [S (newline # ''Creating branch and committing changes...'')] w
        in case create_branch_and_commit env repo_path branch_name files_changed commit_message w1 of
             (Inl e, w2) \<Rightarrow> (Inl e, w2)
           | (Inr False, w2) \<Rightarrow> (Inr False, w2)
           | (Inr True, w2) \<Rightarrow>
               let pr_title = ''chore: sync repository standards'';
                   pr_body = ''This PR synchronizes repository standards from org-infra.''
                     @ [newline, newline] @ ''## Files Updated'' @ [newline]
                     @ join_with [newline]
                         (map (\<lambda>f. ''- '' @ [CHR 0x60] @ f @ [CHR 0x60]) files_changed)
                     @ [newline, newline] @ ''## Description'' @ [newline]
                     @ ''This is an automated PR to ensure repository settings are consistent across the organization.''
                     @ [newline, newline] @ ''---'' @ [newline]
                     @ ''*This PR was automatically generated by the sync_org_repositories workflow.*''
                     @ [newline];
                   w3 = print [S ''Creating pull request from fork to upstream...''] w2
               in case create_pull_request env org repo_name fork_owner branch_name
                         pr_title pr_body ''main'' w3 of
                    (r, w4) \<Rightarrow> (Inr r, w4))"

text \<open>The body of the \<^verbatim>\<open>try\<close> block: steps 2 to 5.\<close>

definition sync_attempt ::
  "env \<Rightarrow> string \<Rightarrow> string \<Rightarrow> string \<Rightarrow> file_config list \<Rightarrow> bool \<Rightarrow> path \<Rightarrow> world
     \<Rightarrow> (exn + bool) \<times> world" where
  "sync_attempt env org repo_name fork_owner rules dry_run tmpdir w =
     (case acquire_working_tree env org repo_name fork_owner dry_run tmpdir w of
        (Inl e, w1) \<Rightarrow> (Inl e, w1)
      | (Inr repo_path, w1) \<Rightarrow>
          (case process_files (script_root env) repo_path repo_name dry_run rules [] w1 of
             (Inl e, w2) \<Rightarrow> (Inl e, w2)
           | (Inr files_changed, w2) \<Rightarrow>
               publish_changes env org repo_name fork_owner repo_path dry_run files_changed w2))"

definition cleanup :: "path \<Rightarrow> world \<Rightarrow> world" where
  "cleanup tmpdir w = emit (Cleanup tmpdir) (w\<lparr>fs := remove_tree tmpdir (fs w)\<rparr>)"

text \<open>The three lines that \<^verbatim>\<open>sync_repository\<close> prints first.\<close>

definition banner :: "string \<Rightarrow> string \<Rightarrow> world \<Rightarrow> world" where
  "banner org repo_name w =
     (let w1 = print [S (newline # replicate 60 (CHR ''=''))] w;
          w2 = print [S ''Processing: '', S org, S ''/'', S repo_name] w1
      in print [S (replicate 60 (CHR ''=''))] w2)"

text \<open>
  \<^verbatim>\<open>sync_repository\<close>.  The result is \<open>Inr\<close> of the boolean it returns, or \<open>Inl\<close> of
  an exception that leaves it: the handlers of the \<^verbatim>\<open>try\<close> block turn every exception
  raised inside it into \<^verbatim>\<open>False\<close>, so only the creation of the temporary directory,
  which stands before the \<^verbatim>\<open>try\<close>, can raise out of the function.
\<close>

definition sync_repository ::
  "env \<Rightarrow> string \<Rightarrow> string \<Rightarrow> string \<Rightarrow> config \<Rightarrow> bool \<Rightarrow> world \<Rightarrow> (exn + bool) \<times> world" where
  "sync_repository env org repo_name fork_owner cfg dry_run w =
     (let w3 = banner org repo_name w;
          rules = (case files_to_sync cfg of None \<Rightarrow> [] | Some l \<Rightarrow> l)
      in if rules = [] then (Inr False, print [S ''No files configured for sync''] w3)
         else
           (case ensure_fork env org repo_name fork_owner dry_run w3 of
              (False, w4) \<Rightarrow> (Inr False, w4)
            | (True, w4) \<Rightarrow>
                (case mkdtemp env (events w4) of
                   Inl e \<Rightarrow> (Inl e, w4)
                 | Inr tmpdir \<Rightarrow>
                     let w5 = emit (TemporaryDirectory tmpdir) w4;
                         (r, w7) =
                           (case sync_attempt env org repo_name fork_owner rules dry_run tmpdir w5 of
                              (Inr b, w6) \<Rightarrow> (b, w6)
                            | (Inl e, w6) \<Rightarrow>
                                if is_CalledProcessError e then
                                  (False, print [S ''Error processing '', S repo_name, S '': '',
                                                 E e] w6)
                                else
                                  (False, emit (Traceback e)
                                     (print [S ''Unexpected error processing '', S repo_name,
                                             S '': '', E e] w6)))
                     in (Inr r, cleanup tmpdir w7))))"

section \<open>Repository catalog and batch runner\<close>

definition load_sync_config :: "env \<Rightarrow> string \<Rightarrow> world \<Rightarrow> exn + config" where
  "load_sync_config env cfg_path w =
     (let script_dir = script_root env;
          full_path = script_dir @ ''/'' @ cfg_path
      in case fs w full_path of
           None \<Rightarrow> Inl (FileNotFoundError full_path)
         | Some txt \<Rightarrow> yaml_config env txt)"

text \<open>
  How a call ends that may also leave through \<^verbatim>\<open>sys.exit\<close>: with a value, with an
  exit status, or with an exception.
\<close>

datatype 'a outcome = Value 'a | Exit int | Raise exn

definition fetch_peribolos_file :: "env \<Rightarrow> string \<Rightarrow> world \<Rightarrow> peribolos outcome \<times> world" where
  "fetch_peribolos_file env org w =
     (let peribolos_repo = ''.github'';
          github_repo_url = ''https://github.com/'' @ org @ ''/'' @ peribolos_repo @ ''.git'';
          w1 = print [S ''Fetching peribolos configuration from '', S github_repo_url] w
      in case mkdtemp env (events w1) of
           Inl e \<Rightarrow> (Raise e, w1)
         | Inr tmpdir \<Rightarrow>
             let w2 = emit (TemporaryDirectory tmpdir) w1;
                 cmd = ''git clone --quiet --depth 1 '' @ github_repo_url;
                 w3 = emit (CheckCall [cmd] tmpdir) w2;
                 attempt =
                   (case git_clone env (events w2) [cmd] of
                      Inl e \<Rightarrow> (Raise e, w3)
                    | Inr tree \<Rightarrow>
                        let repo_path = os_path_join tmpdir peribolos_repo;
                            w4 = w3\<lparr>fs := checkout_tree repo_path tree (fs w3)\<rparr>;
                            peribolos_path = os_path_join repo_path ''peribolos.yaml''
                        in case fs w4 peribolos_path of
                             Some txt \<Rightarrow>
                               (case yaml_peribolos env txt of
                                  Inl e \<Rightarrow> (Raise e, w4)
                                | Inr d \<Rightarrow> (Value d, w4))
                           | None \<Rightarrow>
                               (Exit 1, print [S ''Error: peribolos.yaml not found in '',
                                               S peribolos_repo, S '' repository''] w4));
                 (r, w6) =
                   (case attempt of
                      (Raise e, w5) \<Rightarrow>
                        if is_CalledProcessError e then
                          (Exit 1, print [S ''Error cloning '', S peribolos_repo,
                                          S '' repository: '', E e] w5)
                        else (Raise e, w5)
                    | (r, w5) \<Rightarrow> (r, w5))
             in (r, cleanup tmpdir w6))"

definition extract_repositories :: "peribolos \<Rightarrow> string \<Rightarrow> world \<Rightarrow> string list \<times> world" where
  "extract_repositories peribolos_data org w =
     (let repos =
            (case peribolos_data of
               None \<Rightarrow> []
             | Some orgs \<Rightarrow>
                 (case map_of orgs org of
                    None \<Rightarrow> []
                  | Some org_data \<Rightarrow> (case org_data of None \<Rightarrow> [] | Some names \<Rightarrow> names)))
      in (repos, print [S ''Found '', I (int (length repos)),
                        S '' repositories in peribolos configuration for '', S org] w))"

text \<open>
  The part of \<^verbatim>\<open>main\<close> that settles which repositories are processed: the filter
  by \<^verbatim>\<open>--repos\<close>, when that option names any, then the exclusion list, which is the
  configuration's \<^verbatim>\<open>exclude_repos\<close> or, without that key, \<^verbatim>\<open>['org-infra']\<close>.
\<close>

definition select_repositories ::
  "config \<Rightarrow> string list option \<Rightarrow> string list \<Rightarrow> world \<Rightarrow> string list \<times> world" where
  "select_repositories cfg repos_arg repositories w =
     (let (repositories1, w1) =
            (case repos_arg of
               Some (r # rs) \<Rightarrow>
                 (let kept = filter (\<lambda>x. x \<in> set (r # rs)) repositories
                  in (kept, print [S ''Filtering to '', I (int (length kept)),
                                   S '' specified repository(ies)''] w))
             | _ \<Rightarrow> (repositories, w));
          excluded_repos =
            (case config_exclude_repos cfg of None \<Rightarrow> [''org-infra''] | Some ex \<Rightarrow> ex)
      in (filter (\<lambda>r. r \<notin> set excluded_repos) repositories1, w1))"

text \<open>
  The loop of \<^verbatim>\<open>main\<close> over the repositories: an exception that leaves
  \<^verbatim>\<open>sync_repository\<close> is printed with its traceback and the loop goes on.
\<close>

fun process_repositories ::
  "env \<Rightarrow> string \<Rightarrow> string \<Rightarrow> config \<Rightarrow> bool \<Rightarrow> string list \<Rightarrow> nat \<Rightarrow> world \<Rightarrow> nat \<times> world" where
  "process_repositories env org fork_owner cfg dry_run [] success_count w = (success_count, w)"
| "process_repositories env org fork_owner cfg dry_run (repo_name # rest) success_count w =
     (case sync_repository env org repo_name fork_owner cfg dry_run w of
        (Inr True, w1) \<Rightarrow>
          process_repositories env org fork_owner cfg dry_run rest (success_count + 1) w1
      | (Inr False, w1) \<Rightarrow>
          process_repositories env org fork_owner cfg dry_run rest success_count w1
      | (Inl e, w1) \<Rightarrow>
          process_repositories env org fork_owner cfg dry_run rest success_count
            (emit (Traceback e) (print [S ''Failed to process '', S repo_name, S '': '', E e] w1)))"

record args =
  args_org :: string
  args_config :: string
  args_dry_run :: bool
  args_repos :: "string list option"

datatype main_result = Returned | SysExit int | Raised exn

definition main :: "env \<Rightarrow> args \<Rightarrow> world \<Rightarrow> main_result \<times> world" where
  "main env a w =
     (if GITHUB_TOKEN env = None \<or> GITHUB_TOKEN env = Some [] then
        (SysExit 1, print [S ''Error: GITHUB_TOKEN or GITHUB_PAT environment variable not set''] w)
      else
        (case get_authenticated_user env w of
           (Some (c # cs), w1) \<Rightarrow>
             let fork_owner = c # cs;
                 w2 = print [S ''Authenticated as: '', S fork_owner] w1
             in (case load_sync_config env (args_config a) w2 of
                   Inl e \<Rightarrow> (Raised e, w2)
                 | Inr cfg \<Rightarrow>
                     (case fetch_peribolos_file env (args_org a) w2 of
                        (Exit n, w3) \<Rightarrow> (SysExit n, w3)
                      | (Raise e, w3) \<Rightarrow> (Raised e, w3)
                      | (Value peribolos_data, w3) \<Rightarrow>
                          (case extract_repositories peribolos_data (args_org a) w3 of
                             (repositories, w4) \<Rightarrow>
                               if repositories = [] then
                                 (SysExit 0,
                                  print [S ''No repositories found in peribolos configuration''] w4)
                               else
                                 let (repositories1, w5) =
                                       select_repositories cfg (args_repos a) repositories w4;
                                     w6 = (if args_dry_run a then
                                             print [S (replicate 60 (CHR ''=''))]
                                               (print [S ''DRY RUN MODE - No changes will be made'']
                                                  (print [S (newline # replicate 60 (CHR ''=''))] w5))
                                           else w5);
                                     w7 = print [S (newline # ''Will process ''),
                                                 I (int (length repositories1)),
                                                 S '' repository(ies)''] w6;
                                     (success_count, w8) =
                                       process_repositories env (args_org a) fork_owner cfg
                                         (args_dry_run a) repositories1 0 w7;
                                     w9 = print [S (replicate 60 (CHR ''=''))]
                                            (print [S ''Summary: Successfully processed '',
                                                    I (int success_count), S ''/'',
                                                    I (int (length repositories1)),
                                                    S '' repositories'']
                                               (print [S (newline # replicate 60 (CHR ''=''))] w8))
                                 in (Returned, w9))))
         | (_, w1) \<Rightarrow>
             (SysExit 1, print [S ''Error: Could not determine authenticated user/app''] w1)))"

text \<open>
  What \<open>sync_repository\<close> gives for each repository of the list, each in the world
  in which the loop calls it.
\<close>

fun outcomes ::
  "env \<Rightarrow> string \<Rightarrow> string \<Rightarrow> config \<Rightarrow> bool \<Rightarrow> string list \<Rightarrow> world \<Rightarrow> (exn + bool) list" where
  "outcomes env org fork_owner cfg dry_run [] w = []"
| "outcomes env org fork_owner cfg dry_run (repo_name # rest) w =
     fst (sync_repository env org repo_name fork_owner cfg dry_run w)
       # outcomes env org fork_owner cfg dry_run rest
           (snd (process_repositories env org fork_owner cfg dry_run [repo_name] 0 w))"

section \<open>Observations on the events\<close>

text \<open>The subprocess calls (every one of them a \<^verbatim>\<open>git clone\<close>) among the events.\<close>

fun is_clone :: "event \<Rightarrow> bool" where
  "is_clone (CheckCall cmd cwd) = True"
| "is_clone _ = False"

definition clones :: "world \<Rightarrow> event list" where
  "clones w = filter is_clone (events w)"

text \<open>
  The events that create a branch (\<^verbatim>\<open>git checkout -b\<close>), push one, or open a pull
  request (a \<^verbatim>\<open>POST\<close> to a URL that ends in \<^verbatim>\<open>/pulls\<close>).
\<close>

definition creates_branch_or_pr :: "event \<Rightarrow> bool" where
  "creates_branch_or_pr e =
     (case e of
        Git p (GitCmd cmd) \<Rightarrow> take 2 cmd = [''checkout'', ''-b''] \<or> take 1 cmd = [''push'']
      | HttpRequest m u d \<Rightarrow> m = ''POST'' \<and> suffix ''/pulls'' u
      | _ \<Rightarrow> False)"

definition branches_and_prs :: "world \<Rightarrow> event list" where
  "branches_and_prs w = filter creates_branch_or_pr (events w)"

text \<open>
  For one entry of \<^verbatim>\<open>files_to_sync\<close>: the destination as the loop records it, the
  two paths the loop reads and writes, and whether the entry excludes a repository.
\<close>

definition rule_dest :: "file_config \<Rightarrow> string" where
  "rule_dest fc = (case destination fc of None \<Rightarrow> source fc | Some d \<Rightarrow> d)"

definition rule_source_path :: "path \<Rightarrow> file_config \<Rightarrow> path" where
  "rule_source_path source_root fc = pathlib_join source_root (source fc)"

definition rule_dest_path :: "path \<Rightarrow> file_config \<Rightarrow> path" where
  "rule_dest_path repo_path fc = os_path_join repo_path (rule_dest fc)"

definition rule_excluded :: "string \<Rightarrow> file_config \<Rightarrow> bool" where
  "rule_excluded repo_name fc =
     (case exclude_repos fc of None \<Rightarrow> False | Some ex \<Rightarrow> repo_name \<in> set ex)"

text \<open>
  An entry is active when its source file exists and it does not exclude the
  repository; its destination is stale when it is missing or differs from the source.
\<close>

definition rule_active :: "(path \<rightharpoonup> string) \<Rightarrow> path \<Rightarrow> string \<Rightarrow> file_config \<Rightarrow> bool" where
  "rule_active files source_root repo_name fc =
     (os_path_exists files (rule_source_path source_root fc) \<and> \<not> rule_excluded repo_name fc)"

definition rule_stale :: "(path \<rightharpoonup> string) \<Rightarrow> path \<Rightarrow> path \<Rightarrow> file_config \<Rightarrow> bool" where
  "rule_stale files source_root repo_path fc =
     (files (rule_dest_path repo_path fc) \<noteq> files (rule_source_path source_root fc))"

text \<open>The destinations of the copies (\<^verbatim>\<open>shutil.copy2\<close>) among the events, in order.\<close>

fun copy_dest :: "event \<Rightarrow> path list" where
  "copy_dest (Copy2 src dst) = [dst]"
| "copy_dest _ = []"

definition copied :: "world \<Rightarrow> path list" where
  "copied w = concat (map copy_dest (events w))"

section \<open>Sample environments and worlds\<close>

text \<open>Concrete inputs on which the theorems below are instantiated.\<close>

definition env0 :: env where
  "env0 = \<lparr>GITHUB_TOKEN = Some ''t0ken'', script_root = ''/src'',
           http = (\<lambda>es m u d. Response 200 (Some [(''login'', ''bot'')]) []),
           mkdtemp = (\<lambda>es. Inr ''/tmp/t''),
           git_clone = (\<lambda>es cmd. Inr []),
           git = (\<lambda>es p op. Inr None),
           strftime_now = (\<lambda>es. ''20240101000000''),
           yaml_config = (\<lambda>t. Inr \<lparr>files_to_sync = None, config_exclude_repos = None\<rparr>),
           yaml_peribolos = (\<lambda>t. Inr None)\<rparr>"

definition world0 :: world where
  "world0 = \<lparr>fs = Map.empty, events = []\<rparr>"

text \<open>An environment in which no fork exists and the request that creates one fails.\<close>

definition env_fork_500 :: env where
  "env_fork_500 =
     env0\<lparr>http := (\<lambda>es m u d. if m = ''GET'' then Response 404 (Some [(''message'', ''Not Found'')]) []
                              else Response 500 None ''Server Error'')\<rparr>"

definition rule_codeowners :: file_config where
  "rule_codeowners = \<lparr>source = ''CODEOWNERS'', destination = None, exclude_repos = None\<rparr>"

definition cfg_codeowners :: config where
  "cfg_codeowners = \<lparr>files_to_sync = Some [rule_codeowners], config_exclude_repos = None\<rparr>"

definition cfg_empty :: config where
  "cfg_empty = \<lparr>files_to_sync = Some [], config_exclude_repos = None\<rparr>"

text \<open>
  An environment in which every request is answered with status 200 and the clone
  holds one file, and a world whose source tree holds the same file.
\<close>

definition env_clone :: "(path \<times> string) list \<Rightarrow> env" where
  "env_clone tree = env0\<lparr>git_clone := (\<lambda>es cmd. Inr tree)\<rparr>"

definition world_src :: world where
  "world_src = \<lparr>fs = [''/src/CODEOWNERS'' \<mapsto> ''* @team''], events = []\<rparr>"

text \<open>
  An environment in which the temporary directory cannot be created while the
  repository \<^verbatim>\<open>b\<close> is being processed.
\<close>

definition env_tmp_fails :: env where
  "env_tmp_fails =
     env0\<lparr>mkdtemp := (\<lambda>es. if Print [S ''Processing: '', S ''complytime'', S ''/'', S ''b''] \<in> set es
                               \<and> Print [S ''Processing: '', S ''complytime'', S ''/'', S ''c''] \<notin> set es
                            then Inl (OtherException ''No space left on device'')
                            else Inr ''/tmp/t'')\<rparr>"

text \<open>
  A run of \<^verbatim>\<open>main\<close>: the configuration names \<^verbatim>\<open>docs\<close> under \<^verbatim>\<open>exclude_repos\<close>, and the
  peribolos document lists three repositories, \<^verbatim>\<open>org-infra\<close> among them.
\<close>

definition cfg_exclude_docs :: config where
  "cfg_exclude_docs =
     \<lparr>files_to_sync = None, config_exclude_repos = Some [''docs'']\<rparr>"

definition env_main :: env where
  "env_main =
     env0\<lparr>git_clone := (\<lambda>es cmd. Inr [(''peribolos.yaml'', ''orgs'')]),
          yaml_config := (\<lambda>t. Inr cfg_exclude_docs),
          yaml_peribolos :=
            (\<lambda>t. Inr (Some [(''complytime'', Some [''org-infra'', ''docs'', ''tool''])]))\<rparr>"

definition world_main :: world where
  "world_main = \<lparr>fs = [''/src/sync-config.yml'' \<mapsto> ''files_to_sync''], events = []\<rparr>"

definition args_main :: args where
  "args_main = \<lparr>args_org = ''complytime'', args_config = ''sync-config.yml'',
                 args_dry_run = True, args_repos = None\<rparr>"

text \<open>
  A working tree at \<^verbatim>\<open>/tmp/t/docs\<close> whose \<^verbatim>\<open>CODEOWNERS\<close> differs from the source, and
  a rule for that file that excludes the repository \<^verbatim>\<open>docs\<close>.
\<close>

definition world_diff :: world where
  "world_diff = \<lparr>fs = [''/src/CODEOWNERS'' \<mapsto> ''* @team'',
                      ''/tmp/t/docs/CODEOWNERS'' \<mapsto> ''* @old''], events = []\<rparr>"

definition rule_excl :: file_config where
  "rule_excl = \<lparr>source = ''CODEOWNERS'', destination = None, exclude_repos = Some [''docs'']\<rparr>"

definition rule_missing :: file_config where
  "rule_missing = \<lparr>source = ''SECURITY.md'', destination = None, exclude_repos = None\<rparr>"

section \<open>Basic facts about the world\<close>

lemma requests_print [simp]: "requests (print ps w) = requests w"
  by (simp add: requests_def print_def emit_def)

lemma fs_print [simp]: "fs (print ps w) = fs w"
  by (simp add: print_def emit_def)

lemma events_print: "events (print ps w) = events w @ [Print ps]"
  by (simp add: print_def emit_def)

lemma events_emit: "events (emit e w) = events w @ [e]"
  by (simp add: emit_def)

lemma events_banner:
  "events (banner org repo_name w) = events w @
     [Print [S (newline # replicate 60 (CHR ''=''))],
      Print [S ''Processing: '', S org, S ''/'', S repo_name],
      Print [S (replicate 60 (CHR ''=''))]]"
  by (simp add: banner_def events_print)

lemma fs_banner [simp]: "fs (banner org repo_name w) = fs w"
  by (simp add: banner_def)

lemma clones_print [simp]: "clones (print ps w) = clones w"
  by (simp add: clones_def events_print)

lemma clones_banner [simp]: "clones (banner org repo_name w) = clones w"
  by (simp add: clones_def events_banner)

lemma clones_github_api_request:
  "github_api_request env endpoint method data w = (r, w1) \<Longrightarrow> clones w1 = clones w"
  by (auto simp: github_api_request_def clones_def events_print events_emit Let_def
      split: http_result.splits if_splits)

lemma check_fork_exists_result:
  assumes "github_api_request env (GITHUB_API @ ''/repos/'' @ fork_owner @ ''/'' @ repo_name)
             ''GET'' None w = ((status, data), w1)"
  shows "check_fork_exists env org repo_name fork_owner w
           = (if status = 200 then Some True else None, w1)"
  using assms by (simp add: check_fork_exists_def)

lemma clones_check_fork_exists:
  "check_fork_exists env org repo_name fork_owner w = (r, w1) \<Longrightarrow> clones w1 = clones w"
proof -
  assume a: "check_fork_exists env org repo_name fork_owner w = (r, w1)"
  obtain st d w' where g: "github_api_request env (GITHUB_API @ ''/repos/'' @ fork_owner @ ''/'' @ repo_name)
             ''GET'' None w = ((st, d), w')"
    by (metis prod.exhaust)
  have "w1 = w'" using a check_fork_exists_result [OF g, of org] by simp
  then show ?thesis using clones_github_api_request [OF g] by simp
qed

lemma create_fork_result:
  assumes "github_api_request env (GITHUB_API @ ''/repos/'' @ org @ ''/'' @ repo_name @ ''/forks'')
             ''POST'' (Some []) (print [S ''Creating fork of '', S org, S ''/'', S repo_name, S ''...''] w)
           = ((status, data), w1)"
  shows "create_fork env org repo_name w =
     (if status = 202 then
        (True, emit (Sleep 5)
                 (print [S ''Fork created successfully, waiting for it to be ready...''] w1))
      else if status = 200 then (True, print [S ''Fork already exists''] w1)
      else (False, print [S ''Failed to create fork (HTTP '', I status, S ''): '', D data] w1))"
  using assms by (simp add: create_fork_def)

section \<open>The allow-list\<close>

lemma allowed_patterns_start:
  "list_all (\<lambda>(p, m). \<exists>is. re_compile p = Some (One (Exactly CHR ''h'') # is)) allowed_patterns"
  by (simp add: allowed_patterns_def GITHUB_API_def re_compile_def metachar_def)

lemma validate_leading_slash: "\<not> validate_github_api_request (CHR ''/'' # s) m"
  using allowed_patterns_start
  by (auto simp: validate_github_api_request_def allowed_patterns_def re_match_def list_ex_iff)

lemmas regex_eval = validate_github_api_request_def allowed_patterns_def GITHUB_API_def
  re_match_def re_compile_def metachar_def newline_def

lemma validate_get_repo: "validate_github_api_request ''https://api.github.com/repos/bot/docs'' ''GET''"
  by (simp add: regex_eval)

lemma validate_post_forks: "validate_github_api_request ''https://api.github.com/repos/complytime/docs/forks'' ''POST''"
  by (simp add: regex_eval)

lemma validate_user_post: "\<not> validate_github_api_request ''https://api.github.com/user'' ''POST''"
  by (simp add: validate_github_api_request_def allowed_patterns_def GITHUB_API_def re_match_def
        re_compile_def metachar_def newline_def)

text \<open>
  C1.  Whenever the pair of endpoint and method is not accepted by the allow-list of
  five (pattern, method) pairs, \<open>github_api_request\<close> returns status 403 with the body
  \<^verbatim>\<open>{"error": "Endpoint not allowed"}\<close>; the network requests recorded in the world
  are the ones that were there before the call, and no file has changed.
\<close>

theorem github_api_request_forbidden:
  assumes "\<not> validate_github_api_request endpoint method"
  shows "fst (github_api_request env endpoint method data w)
           = (403, [(''error'', ''Endpoint not allowed'')])
       \<and> requests (snd (github_api_request env endpoint method data w)) = requests w
       \<and> fs (snd (github_api_request env endpoint method data w)) = fs w"
  using assms by (simp add: github_api_request_def)

theorem github_api_request_forbidden_witness:
  "\<not> validate_github_api_request ''https://api.github.com/user'' ''POST''
   \<and> fst (github_api_request env0 ''https://api.github.com/user'' ''POST'' None world0)
       = (403, [(''error'', ''Endpoint not allowed'')])
   \<and> requests (snd (github_api_request env0 ''https://api.github.com/user'' ''POST'' None world0)) = []"
  using github_api_request_forbidden [OF validate_user_post, of env0 None world0]
    validate_user_post
  by (simp add: requests_def world0_def)

text \<open>
  C10.  For all arguments \<open>delete_fork_branch\<close> returns \<^verbatim>\<open>False\<close> and adds no network
  request: the endpoint it builds starts with \<^verbatim>\<open>/repos/\<close>, not with the API base
  URL, so the allow-list rejects it and the call it makes ends in the synthetic 403.
\<close>

theorem delete_fork_branch_rejected:
  "fst (delete_fork_branch env fork_owner repo_name branch_name w) = False
   \<and> requests (snd (delete_fork_branch env fork_owner repo_name branch_name w)) = requests w
   \<and> \<not> validate_github_api_request
        (''/repos/'' @ fork_owner @ ''/'' @ repo_name @ ''/git/refs/heads/'' @ branch_name)
        ''DELETE''
   \<and> fst (github_api_request env
        (''/repos/'' @ fork_owner @ ''/'' @ repo_name @ ''/git/refs/heads/'' @ branch_name)
        ''DELETE'' None w) = (403, [(''error'', ''Endpoint not allowed'')])"
proof -
  have v: "\<not> validate_github_api_request
      (''/repos/'' @ fork_owner @ ''/'' @ repo_name @ ''/git/refs/heads/'' @ branch_name) ''DELETE''"
    using validate_leading_slash by simp
  show ?thesis
    using v by (simp add: delete_fork_branch_def github_api_request_def)
qed

section \<open>The contribution driver\<close>

text \<open>
  C6.  When the configuration has no \<^verbatim>\<open>files_to_sync\<close> key, or an empty list under
  it, \<open>sync_repository\<close> returns \<^verbatim>\<open>False\<close> at once: all it has done is print its
  three banner lines and the message; there is no request, no clone, no file touched.
\<close>

theorem sync_repository_no_files:
  assumes "files_to_sync cfg = None \<or> files_to_sync cfg = Some []"
  shows "fst (sync_repository env org repo_name fork_owner cfg dry_run w) = Inr False
       \<and> events (snd (sync_repository env org repo_name fork_owner cfg dry_run w))
           = events (banner org repo_name w) @ [Print [S ''No files configured for sync'']]
       \<and> fs (snd (sync_repository env org repo_name fork_owner cfg dry_run w)) = fs w"
  using assms by (auto simp: sync_repository_def events_print)

theorem sync_repository_no_files_witness:
  "(files_to_sync cfg_empty = None \<or> files_to_sync cfg_empty = Some [])
   \<and> fst (sync_repository env0 ''complytime'' ''docs'' ''bot'' cfg_empty False world0) = Inr False
   \<and> events (snd (sync_repository env0 ''complytime'' ''docs'' ''bot'' cfg_empty False world0))
       = [Print [S (newline # replicate 60 (CHR ''=''))],
          Print [S ''Processing: '', S ''complytime'', S ''/'', S ''docs''],
          Print [S (replicate 60 (CHR ''=''))],
          Print [S ''No files configured for sync'']]"
proof -
  have h: "files_to_sync cfg_empty = None \<or> files_to_sync cfg_empty = Some []"
    by (simp add: cfg_empty_def)
  show ?thesis
    using h sync_repository_no_files [OF h, of env0 "''complytime''" "''docs''" "''bot''" False world0]
    by (simp add: events_banner world0_def)
qed

text \<open>
  C4.  In a real run with a non-empty list of files, when the check for the fork does
  not answer 200 and the request that creates the fork comes back with a status other
  than 202 and 200, \<open>create_fork\<close> returns \<^verbatim>\<open>False\<close>, \<open>sync_repository\<close> returns
  \<^verbatim>\<open>False\<close>, and the run has started no clone.
\<close>

theorem fork_creation_failure:
  fixes env org repo_name fork_owner cfg dry_run w
  defines "w3 \<equiv> banner org repo_name w"
  defines "w4 \<equiv> snd (check_fork_exists env org repo_name fork_owner w3)"
  assumes "\<not> dry_run" and "files_to_sync cfg = Some rules" and "rules \<noteq> []"
    and "\<not> truthy (fst (check_fork_exists env org repo_name fork_owner w3))"
    and "fst (fst (github_api_request env
                 (GITHUB_API @ ''/repos/'' @ org @ ''/'' @ repo_name @ ''/forks'') ''POST'' (Some [])
                 (print [S ''Creating fork of '', S org, S ''/'', S repo_name, S ''...''] w4)))
         = status"
    and "status \<noteq> 202" and "status \<noteq> 200"
  shows "fst (create_fork env org repo_name w4) = False
       \<and> fst (sync_repository env org repo_name fork_owner cfg dry_run w) = Inr False
       \<and> clones (snd (sync_repository env org repo_name fork_owner cfg dry_run w)) = clones w"
proof -
  obtain d w5 where r: "github_api_request env
                 (GITHUB_API @ ''/repos/'' @ org @ ''/'' @ repo_name @ ''/forks'') ''POST'' (Some [])
                 (print [S ''Creating fork of '', S org, S ''/'', S repo_name, S ''...''] w4)
         = ((status, d), w5)"
    using assms(7) by (metis prod.collapse)
  have cf: "create_fork env org repo_name w4
      = (False, print [S ''Failed to create fork (HTTP '', I status, S ''): '', D d] w5)"
    using create_fork_result [OF r] assms(8,9) by simp
  obtain rr where c: "check_fork_exists env org repo_name fork_owner w3 = (rr, w4)"
    unfolding w4_def by (metis prod.collapse)
  have nt: "\<not> truthy rr" using assms(6) c by simp
  have ef: "ensure_fork env org repo_name fork_owner dry_run w3
      = (False, print [S ''Failed to create fork, skipping '', S repo_name]
                  (print [S ''Failed to create fork (HTTP '', I status, S ''): '', D d] w5))"
    using assms(3) c nt cf by (simp add: ensure_fork_def)
  have sr: "sync_repository env org repo_name fork_owner cfg dry_run w
      = (Inr False, print [S ''Failed to create fork, skipping '', S repo_name]
                  (print [S ''Failed to create fork (HTTP '', I status, S ''): '', D d] w5))"
    using assms(4,5) ef by (simp add: sync_repository_def w3_def)
  have "clones w5 = clones w4"
    using clones_github_api_request [OF r] by simp
  moreover have "clones w4 = clones w"
    using clones_check_fork_exists [OF c] by (simp add: w3_def)
  ultimately show ?thesis
    using cf sr by simp
qed

theorem fork_creation_failure_witness:
  "fst (check_fork_exists env_fork_500 ''complytime'' ''docs'' ''bot''
          (banner ''complytime'' ''docs'' world0)) = None
   \<and> fst (create_fork env_fork_500 ''complytime'' ''docs''
          (snd (check_fork_exists env_fork_500 ''complytime'' ''docs'' ''bot''
                  (banner ''complytime'' ''docs'' world0)))) = False
   \<and> fst (sync_repository env_fork_500 ''complytime'' ''docs'' ''bot'' cfg_codeowners False world0)
       = Inr False
   \<and> clones (snd (sync_repository env_fork_500 ''complytime'' ''docs'' ''bot'' cfg_codeowners
                    False world0)) = []"
proof -
  have c: "fst (check_fork_exists env_fork_500 ''complytime'' ''docs'' ''bot''
          (banner ''complytime'' ''docs'' world0)) = None"
    using validate_get_repo by (simp add: check_fork_exists_def github_api_request_def GITHUB_API_def
        env_fork_500_def env0_def)
  have s: "fst (fst (github_api_request env_fork_500
                 (GITHUB_API @ ''/repos/'' @ ''complytime'' @ ''/'' @ ''docs'' @ ''/forks'') ''POST'' (Some [])
                 (print [S ''Creating fork of '', S ''complytime'', S ''/'', S ''docs'', S ''...'']
                   (snd (check_fork_exists env_fork_500 ''complytime'' ''docs'' ''bot''
                      (banner ''complytime'' ''docs'' world0)))))) = 500"
    using validate_post_forks by (simp add: github_api_request_def GITHUB_API_def env_fork_500_def env0_def)
  have t: "\<not> truthy (fst (check_fork_exists env_fork_500 ''complytime'' ''docs'' ''bot''
          (banner ''complytime'' ''docs'' world0)))"
    using c by (simp add: truthy_def)
  have "clones world0 = []" by (simp add: clones_def world0_def)
  then show ?thesis
    using c fork_creation_failure [where dry_run = False and cfg = cfg_codeowners
        and rules = "[rule_codeowners]" and env = env_fork_500 and org = "''complytime''"
        and repo_name = "''docs''" and fork_owner = "''bot''" and w = world0 and status = 500,
        OF _ _ _ t s]
    by (simp add: cfg_codeowners_def)
qed

section \<open>No branch and no pull request before publishing\<close>

lemma bp_print [simp]: "branches_and_prs (print ps w) = branches_and_prs w"
  by (simp add: branches_and_prs_def events_print creates_branch_or_pr_def)

lemma bp_banner [simp]: "branches_and_prs (banner org repo_name w) = branches_and_prs w"
  by (simp add: banner_def)

lemma bp_fs_update [simp]: "branches_and_prs (w\<lparr>fs := f\<rparr>) = branches_and_prs w"
  by (simp add: branches_and_prs_def)

lemma bp_emit:
  "\<not> creates_branch_or_pr e \<Longrightarrow> branches_and_prs (emit e w) = branches_and_prs w"
  by (simp add: branches_and_prs_def events_emit)

lemma not_pulls_forks: "\<not> suffix ''/pulls'' (u @ ''/forks'')"
  by (auto simp: suffix_def append_eq_append_conv2 append_eq_Cons_conv Cons_eq_append_conv)

lemma bp_github_api_request:
  assumes "github_api_request env endpoint method data w = (r, w1)"
    and "method \<noteq> ''POST'' \<or> \<not> suffix ''/pulls'' endpoint"
  shows "branches_and_prs w1 = branches_and_prs w"
  using assms
  by (auto simp: github_api_request_def Let_def bp_emit creates_branch_or_pr_def
      split: http_result.splits if_splits)

lemma bp_check_fork_exists:
  assumes "check_fork_exists env org repo_name fork_owner w = (r, w1)"
  shows "branches_and_prs w1 = branches_and_prs w"
proof -
  obtain st d w' where g: "github_api_request env (GITHUB_API @ ''/repos/'' @ fork_owner @ ''/'' @ repo_name)
             ''GET'' None w = ((st, d), w')"
    by (metis prod.exhaust)
  have "w1 = w'" using assms check_fork_exists_result [OF g, of org] by simp
  then show ?thesis using bp_github_api_request [OF g] by simp
qed

lemma bp_create_fork:
  assumes "create_fork env org repo_name w = (r, w1)"
  shows "branches_and_prs w1 = branches_and_prs w"
proof -
  obtain st d w' where g: "github_api_request env (GITHUB_API @ ''/repos/'' @ org @ ''/'' @ repo_name @ ''/forks'')
             ''POST'' (Some []) (print [S ''Creating fork of '', S org, S ''/'', S repo_name, S ''...''] w)
           = ((st, d), w')"
    by (metis prod.exhaust)
  have np: "\<not> suffix ''/pulls'' (GITHUB_API @ ''/repos/'' @ org @ ''/'' @ repo_name @ ''/forks'')"
    using not_pulls_forks [of "GITHUB_API @ ''/repos/'' @ org @ ''/'' @ repo_name"] by simp
  have "branches_and_prs w' = branches_and_prs w"
    using bp_github_api_request [OF g] np by simp
  then show ?thesis
    using assms create_fork_result [OF g]
    by (auto simp: bp_emit creates_branch_or_pr_def split: if_splits)
qed

lemma bp_ensure_fork:
  assumes "ensure_fork env org repo_name fork_owner dry_run w = (r, w1)"
  shows "branches_and_prs w1 = branches_and_prs w"
proof (cases dry_run)
  case True
  then show ?thesis using assms by (simp add: ensure_fork_def)
next
  case False
  obtain c w2 where c: "check_fork_exists env org repo_name fork_owner w = (c, w2)"
    by (metis prod.exhaust)
  obtain f w3 where f: "create_fork env org repo_name w2 = (f, w3)"
    by (metis prod.exhaust)
  show ?thesis
    using assms False c f bp_check_fork_exists [OF c] bp_create_fork [OF f]
    by (auto simp: ensure_fork_def split: if_splits bool.splits)
qed


lemma bp_run_git:
  assumes "run_git env repo_path op w = (r, w1)"
    and "\<not> creates_branch_or_pr (Git repo_path op)"
  shows "branches_and_prs w1 = branches_and_prs w"
  using assms
  by (auto simp: run_git_def Let_def bp_emit split: sum.splits option.splits)

lemma bp_setup_git_credentials:
  assumes "setup_git_credentials env repo_path fork_owner repo_name w = (r, w1)"
  shows "branches_and_prs w1 = branches_and_prs w"
proof -
  let ?url = "''https://x-access-token:'' @ token_str env @ ''@github.com/''
                           @ fork_owner @ ''/'' @ repo_name @ ''.git''"
  obtain a wa where a: "run_git env repo_path OpenRepo w = (a, wa)" by (metis prod.exhaust)
  obtain b wb where b: "run_git env repo_path (RemoteSetUrl ''origin'' ?url) wa = (b, wb)"
    by (metis prod.exhaust)
  obtain c wc where c: "run_git env repo_path (CreateRemote ''origin'' ?url) wb = (c, wc)"
    by (metis prod.exhaust)
  have "branches_and_prs wa = branches_and_prs w"
    using bp_run_git [OF a] by (simp add: creates_branch_or_pr_def)
  moreover have "branches_and_prs wb = branches_and_prs wa"
    using bp_run_git [OF b] by (simp add: creates_branch_or_pr_def)
  moreover have "branches_and_prs wc = branches_and_prs wb"
    using bp_run_git [OF c] by (simp add: creates_branch_or_pr_def)
  ultimately show ?thesis
    using assms a b c
    by (auto simp: setup_git_credentials_def Let_def split: sum.splits)
qed

lemma bp_add_upstream_remote [simp]:
  "branches_and_prs (add_upstream_remote env repo_path upstream_url w) = branches_and_prs w"
proof -
  obtain c wc where c: "run_git env repo_path (CreateRemote ''upstream'' upstream_url) w = (c, wc)"
    by (metis prod.exhaust)
  have "branches_and_prs wc = branches_and_prs w"
    using bp_run_git [OF c] by (simp add: creates_branch_or_pr_def)
  then show ?thesis
    by (simp add: add_upstream_remote_def c split: sum.splits)
qed

lemma bp_fetch_latest_from_upstream:
  assumes "fetch_latest_from_upstream env repo_path w = (r, w1)"
  shows "branches_and_prs w1 = branches_and_prs w"
proof -
  obtain d wd where d: "run_git env repo_path (GitCmd [''fetch'', ''upstream'']) w = (d, wd)"
    by (metis prod.exhaust)
  obtain e we where e: "run_git env repo_path (GitCmd [''checkout'', ''main'']) wd = (e, we)"
    by (metis prod.exhaust)
  obtain f wf where f: "run_git env repo_path (GitCmd [''reset'', ''--hard'', ''upstream/main'']) we = (f, wf)"
    by (metis prod.exhaust)
  have 4: "branches_and_prs wd = branches_and_prs w"
    using bp_run_git [OF d] by (simp add: creates_branch_or_pr_def)
  have 5: "branches_and_prs we = branches_and_prs wd"
    using bp_run_git [OF e] by (simp add: creates_branch_or_pr_def)
  have 6: "branches_and_prs wf = branches_and_prs we"
    using bp_run_git [OF f] by (simp add: creates_branch_or_pr_def)
  show ?thesis
    using assms d e f 4 5 6
    by (auto simp: fetch_latest_from_upstream_def Let_def split: sum.splits if_splits)
qed

lemma bp_sync_fork_with_upstream:
  assumes "sync_fork_with_upstream env repo_path fork_owner repo_name upstream_url w = (r, w1)"
  shows "branches_and_prs w1 = branches_and_prs w"
proof -
  obtain a wa where a: "setup_git_credentials env repo_path fork_owner repo_name w = (a, wa)"
    by (metis prod.exhaust)
  obtain b wb where b: "run_git env repo_path OpenRepo wa = (b, wb)" by (metis prod.exhaust)
  obtain c wc where c: "fetch_latest_from_upstream env repo_path
                 (add_upstream_remote env repo_path upstream_url wb) = (c, wc)"
    by (metis prod.exhaust)
  have 1: "branches_and_prs wa = branches_and_prs w"
    using bp_setup_git_credentials [OF a] .
  have 2: "branches_and_prs wb = branches_and_prs wa"
    using bp_run_git [OF b] by (simp add: creates_branch_or_pr_def)
  have 3: "branches_and_prs wc = branches_and_prs wb"
    using bp_fetch_latest_from_upstream [OF c] by simp
  show ?thesis
    using assms a b c 1 2 3
    by (auto simp: sync_fork_with_upstream_def split: sum.splits)
qed

lemma bp_acquire_working_tree:
  assumes "acquire_working_tree env org repo_name fork_owner dry_run tmpdir w = (r, w1)"
  shows "branches_and_prs w1 = branches_and_prs w"
proof -
  let ?fork = "''https://github.com/'' @ fork_owner @ ''/'' @ repo_name @ ''.git''"
  let ?up = "''https://github.com/'' @ org @ ''/'' @ repo_name @ ''.git''"
  have nc: "\<And>cmd. \<not> creates_branch_or_pr (CheckCall cmd tmpdir)"
    by (simp add: creates_branch_or_pr_def)
  show ?thesis
  proof (cases dry_run)
    case True
    then show ?thesis
      using assms by (auto simp: acquire_working_tree_def Let_def bp_emit nc split: sum.splits)
  next
    case False
    show ?thesis
    proof (cases "git_clone env (events (print [S ''Cloning '', S ?fork, S ''...''] w))
                    [''git'', ''clone'', ''--quiet'', ?fork]")
      case (Inl e)
      then show ?thesis
        using assms False by (auto simp: acquire_working_tree_def Let_def bp_emit nc)
    next
      case (Inr tree)
      define w4 where "w4 = (emit (CheckCall [''git'', ''clone'', ''--quiet'', ?fork] tmpdir)
                   (print [S ''Cloning '', S ?fork, S ''...''] w))
                 \<lparr>fs := checkout_tree (os_path_join tmpdir repo_name) tree
                    (fs (emit (CheckCall [''git'', ''clone'', ''--quiet'', ?fork] tmpdir)
                   (print [S ''Cloning '', S ?fork, S ''...''] w)))\<rparr>"
      obtain a wa where a: "sync_fork_with_upstream env (os_path_join tmpdir repo_name)
                        fork_owner repo_name ?up w4 = (a, wa)"
        by (metis prod.exhaust)
      have "branches_and_prs w4 = branches_and_prs w"
        by (simp add: w4_def bp_emit nc)
      then have "branches_and_prs wa = branches_and_prs w"
        using bp_sync_fork_with_upstream [OF a] by simp
      then show ?thesis
        using assms False Inr a unfolding acquire_working_tree_def Let_def w4_def
        by (auto split: sum.splits)
    qed
  qed
qed


lemma bp_sync_file:
  assumes "sync_file source_path dest_path relative_path w = (r, w1)"
  shows "branches_and_prs w1 = branches_and_prs w"
  using assms
  by (auto simp: sync_file_def shutil_copy2_def os_makedirs_def Let_def bp_emit
        creates_branch_or_pr_def
      split: sum.splits option.splits if_splits bool.splits)

lemma bp_process_file_config:
  assumes "process_file_config source_root repo_path repo_name dry_run fc files_changed w = (r, w1)"
  shows "branches_and_prs w1 = branches_and_prs w"
proof -
  obtain a wa where a: "sync_file (pathlib_join source_root (source fc))
      (os_path_join repo_path (case destination fc of None \<Rightarrow> source fc | Some d \<Rightarrow> d))
      (case destination fc of None \<Rightarrow> source fc | Some d \<Rightarrow> d) w = (a, wa)"
    by (metis prod.exhaust)
  show ?thesis
    using assms a bp_sync_file [OF a]
    by (auto simp: process_file_config_def Let_def
        split: sum.splits option.splits if_splits bool.splits)
qed

lemma bp_process_files:
  assumes "process_files source_root repo_path repo_name dry_run rules files_changed w = (r, w1)"
  shows "branches_and_prs w1 = branches_and_prs w"
  using assms
proof (induction rules arbitrary: files_changed w)
  case Nil
  then show ?case by simp
next
  case (Cons fc rest)
  obtain a wa where a: "process_file_config source_root repo_path repo_name dry_run fc files_changed w = (a, wa)"
    by (metis prod.exhaust)
  show ?case
  proof (cases a)
    case (Inl e)
    then show ?thesis using Cons.prems a bp_process_file_config [OF a] by simp
  next
    case (Inr fc1)
    then have "process_files source_root repo_path repo_name dry_run rest fc1 wa = (r, w1)"
      using Cons.prems a by simp
    then show ?thesis using Cons.IH bp_process_file_config [OF a] by simp
  qed
qed

lemma bp_cleanup [simp]: "branches_and_prs (cleanup tmpdir w) = branches_and_prs w"
  by (simp add: cleanup_def bp_emit creates_branch_or_pr_def)

text \<open>
  C5.  Whenever a run of \<open>sync_repository\<close> gets through step 1 and step 2 and its
  loop over the file rules ends with an empty list of changed files, the function
  prints that all files are up to date and returns \<^verbatim>\<open>True\<close>; all that happens after
  the loop is that message and the removal of the temporary directory, and the whole
  run has created no branch, pushed nothing and opened no pull request.
\<close>

theorem sync_repository_up_to_date:
  assumes "files_to_sync cfg = Some rules" and "rules \<noteq> []"
    and "ensure_fork env org repo_name fork_owner dry_run (banner org repo_name w) = (True, w4)"
    and "mkdtemp env (events w4) = Inr tmpdir"
    and "acquire_working_tree env org repo_name fork_owner dry_run tmpdir
           (emit (TemporaryDirectory tmpdir) w4) = (Inr repo_path, w5)"
    and "process_files (script_root env) repo_path repo_name dry_run rules [] w5 = (Inr [], w6)"
  shows "sync_repository env org repo_name fork_owner cfg dry_run w
           = (Inr True, cleanup tmpdir (print [S ''All files up to date for '', S repo_name] w6))
       \<and> branches_and_prs (snd (sync_repository env org repo_name fork_owner cfg dry_run w))
           = branches_and_prs w"
proof -
  have att: "sync_attempt env org repo_name fork_owner rules dry_run tmpdir
               (emit (TemporaryDirectory tmpdir) w4)
             = (Inr True, print [S ''All files up to date for '', S repo_name] w6)"
    using assms(5,6) by (simp add: sync_attempt_def publish_changes_def)
  have res: "sync_repository env org repo_name fork_owner cfg dry_run w
           = (Inr True, cleanup tmpdir (print [S ''All files up to date for '', S repo_name] w6))"
    using assms(1-4) att by (simp add: sync_repository_def)
  have "branches_and_prs w4 = branches_and_prs w"
    using bp_ensure_fork [OF assms(3)] by simp
  moreover have "branches_and_prs w5 = branches_and_prs w4"
    using bp_acquire_working_tree [OF assms(5)] by (simp add: bp_emit creates_branch_or_pr_def)
  moreover have "branches_and_prs w6 = branches_and_prs w5"
    using bp_process_files [OF assms(6)] .
  ultimately show ?thesis
    using res by simp
qed

lemmas path_eval = os_path_join_def pathlib_join_def os_path_dirname_def os_path_exists_def
  under_def checkout_tree_def remove_tree_def

lemmas driver_eval = ensure_fork_def check_fork_exists_def create_fork_def github_api_request_def
  truthy_def acquire_working_tree_def sync_fork_with_upstream_def setup_git_credentials_def
  run_git_def fetch_latest_from_upstream_def add_upstream_remote_def token_str_def
  process_file_config_def sync_file_def compare_files_def filecmp_cmp_def shutil_copy2_def
  os_makedirs_def banner_def print_def emit_def Let_def is_GitCommandError_def

theorem sync_repository_up_to_date_witness:
  "fst (sync_repository (env_clone [(''CODEOWNERS'', ''* @team'')]) ''complytime'' ''docs'' ''bot''
          cfg_codeowners False world_src) = Inr True
   \<and> branches_and_prs (snd (sync_repository (env_clone [(''CODEOWNERS'', ''* @team'')])
          ''complytime'' ''docs'' ''bot'' cfg_codeowners False world_src)) = []"
proof -
  let ?E = "env_clone [(''CODEOWNERS'', ''* @team'')]"
  define W4 where "W4 = snd (ensure_fork ?E ''complytime'' ''docs'' ''bot'' False
                               (banner ''complytime'' ''docs'' world_src))"
  define W5 where "W5 = snd (acquire_working_tree ?E ''complytime'' ''docs'' ''bot'' False ''/tmp/t''
                               (emit (TemporaryDirectory ''/tmp/t'') W4))"
  define W6 where "W6 = snd (process_files (script_root ?E) ''/tmp/t/docs'' ''docs'' False
                               [rule_codeowners] [] W5)"
  have h1: "files_to_sync cfg_codeowners = Some [rule_codeowners]"
    by (simp add: cfg_codeowners_def)
  have h3: "ensure_fork ?E ''complytime'' ''docs'' ''bot'' False
              (banner ''complytime'' ''docs'' world_src) = (True, W4)"
    unfolding W4_def using validate_get_repo
    by (simp add: prod_eq_iff driver_eval GITHUB_API_def env_clone_def env0_def)
  have h4: "mkdtemp ?E (events W4) = Inr ''/tmp/t''"
    by (simp add: env_clone_def env0_def)
  have h5: "acquire_working_tree ?E ''complytime'' ''docs'' ''bot'' False ''/tmp/t''
              (emit (TemporaryDirectory ''/tmp/t'') W4) = (Inr ''/tmp/t/docs'', W5)"
    unfolding W5_def
    by (simp add: prod_eq_iff driver_eval env_clone_def env0_def path_eval)
  have h6: "process_files (script_root ?E) ''/tmp/t/docs'' ''docs'' False [rule_codeowners] [] W5
              = (Inr [], W6)"
    unfolding W6_def W5_def W4_def using validate_get_repo
    by (simp add: prod_eq_iff driver_eval GITHUB_API_def env_clone_def env0_def path_eval
          rule_codeowners_def world_src_def)
  note T = sync_repository_up_to_date [OF h1 _ h3 h4 h5 h6]
  have e: "branches_and_prs world_src = []"
    by (simp add: branches_and_prs_def world_src_def)
  have a: "fst (sync_repository ?E ''complytime'' ''docs'' ''bot'' cfg_codeowners False world_src)
             = Inr True"
    using T [THEN conjunct1] by simp
  have b: "branches_and_prs (snd (sync_repository ?E ''complytime'' ''docs'' ''bot''
             cfg_codeowners False world_src)) = []"
    using T [THEN conjunct2] e by simp
  show ?thesis using a b by simp
qed

section \<open>The batch runner\<close>

lemma process_repositories_Cons:
  assumes "sync_repository env org r fo cfg dry w = (x, w1)"
  shows "process_repositories env org fo cfg dry (r # rs) c w =
     (case x of
        Inr True \<Rightarrow> process_repositories env org fo cfg dry rs (c + 1) w1
      | Inr False \<Rightarrow> process_repositories env org fo cfg dry rs c w1
      | Inl e \<Rightarrow> process_repositories env org fo cfg dry rs c
            (emit (Traceback e) (print [S ''Failed to process '', S r, S '': '', E e] w1)))"
  using assms by (simp split: sum.splits bool.splits)

lemma process_repositories_append:
  "process_repositories env org fo cfg dry (xs @ ys) c w =
     (case process_repositories env org fo cfg dry xs c w of
        (c1, w1) \<Rightarrow> process_repositories env org fo cfg dry ys c1 w1)"
proof (induction xs arbitrary: c w)
  case Nil
  then show ?case by simp
next
  case (Cons r rs)
  obtain x w1 where s: "sync_repository env org r fo cfg dry w = (x, w1)"
    by (metis prod.exhaust)
  show ?case
    unfolding append_Cons process_repositories_Cons [OF s]
    by (simp add: Cons.IH split: sum.splits bool.splits)
qed

lemma process_repositories_world:
  "snd (process_repositories env org fo cfg dry rs c w)
     = snd (process_repositories env org fo cfg dry rs 0 w)"
proof (induction rs arbitrary: c w)
  case Nil
  then show ?case by simp
next
  case (Cons r rs)
  obtain x w1 where s: "sync_repository env org r fo cfg dry w = (x, w1)"
    by (metis prod.exhaust)
  have a: "\<And>c' w'. snd (process_repositories env org fo cfg dry rs c' w')
     = snd (process_repositories env org fo cfg dry rs 0 w')"
    using Cons.IH by blast
  have b: "snd (process_repositories env org fo cfg dry rs (Suc c) w1)
     = snd (process_repositories env org fo cfg dry rs (Suc 0) w1)"
    using a [of "Suc c" w1] a [of "Suc 0" w1] by simp
  show ?case
    unfolding process_repositories_Cons [OF s]
    by (cases x) (simp_all add: a [of c] b split: bool.splits)
qed

lemma process_repositories_count:
  "fst (process_repositories env org fo cfg dry rs c w)
     = c + length (filter (\<lambda>x. x = Inr True) (outcomes env org fo cfg dry rs w))"
proof (induction rs arbitrary: c w)
  case Nil
  then show ?case by simp
next
  case (Cons r rs)
  obtain x w1 where s: "sync_repository env org r fo cfg dry w = (x, w1)"
    by (metis prod.exhaust)
  have o: "outcomes env org fo cfg dry (r # rs) w
      = x # outcomes env org fo cfg dry rs (snd (process_repositories env org fo cfg dry [r] 0 w))"
    using s by simp
  show ?case
    unfolding o process_repositories_Cons [OF s]
    by (cases x) (simp_all add: Cons.IH split: bool.splits)
qed

lemma length_outcomes [simp]: "length (outcomes env org fo cfg dry rs w) = length rs"
  by (induction rs arbitrary: w) (simp_all del: process_repositories.simps)

lemma count_others:
  assumes "k < length xs" and "xs ! k \<noteq> v"
  shows "length (filter (\<lambda>x. x = v) xs)
           = length (filter (\<lambda>i. i \<noteq> k \<and> xs ! i = v) [0..<length xs])"
proof -
  have "length (filter (\<lambda>x. x = v) xs) = card {i. i < length xs \<and> xs ! i = v}"
    by (simp add: length_filter_conv_card)
  also have "{i. i < length xs \<and> xs ! i = v} = {i. i < length xs \<and> i \<noteq> k \<and> xs ! i = v}"
    using assms by auto
  also have "card \<dots> = length (filter (\<lambda>i. i \<noteq> k \<and> xs ! i = v) [0..<length xs])"
    by (simp add: length_filter_conv_card cong: conj_cong)
  finally show ?thesis .
qed


lemma process_repositories_world_Cons:
  "snd (process_repositories env org fo cfg dry (r # rs) c w)
     = snd (process_repositories env org fo cfg dry rs 0
              (snd (process_repositories env org fo cfg dry [r] 0 w)))"
proof -
  have "process_repositories env org fo cfg dry ([r] @ rs) c w =
     (case process_repositories env org fo cfg dry [r] c w of
        (c1, w1) \<Rightarrow> process_repositories env org fo cfg dry rs c1 w1)"
    by (rule process_repositories_append)
  then have "snd (process_repositories env org fo cfg dry (r # rs) c w)
      = snd (process_repositories env org fo cfg dry rs
               (fst (process_repositories env org fo cfg dry [r] c w))
               (snd (process_repositories env org fo cfg dry [r] c w)))"
    by (simp add: case_prod_beta del: process_repositories.simps)
  also have "\<dots> = snd (process_repositories env org fo cfg dry rs 0
               (snd (process_repositories env org fo cfg dry [r] c w)))"
    by (rule process_repositories_world)
  also have "snd (process_repositories env org fo cfg dry [r] c w)
      = snd (process_repositories env org fo cfg dry [r] 0 w)"
    by (rule process_repositories_world)
  finally show ?thesis .
qed

lemma outcomes_nth:
  "k < length rs \<Longrightarrow>
   outcomes env org fo cfg dry rs w ! k
     = fst (sync_repository env org (rs ! k) fo cfg dry
              (snd (process_repositories env org fo cfg dry (take k rs) 0 w)))"
proof (induction rs arbitrary: k w)
  case Nil
  then show ?case by simp
next
  case (Cons r rs)
  show ?case
  proof (cases k)
    case 0
    then show ?thesis by simp
  next
    case (Suc j)
    then have j: "j < length rs" using Cons.prems by simp
    have "outcomes env org fo cfg dry (r # rs) w ! k
        = outcomes env org fo cfg dry rs
            (snd (process_repositories env org fo cfg dry [r] 0 w)) ! j"
      using Suc by (simp del: process_repositories.simps)
    also have "\<dots> = fst (sync_repository env org (rs ! j) fo cfg dry
              (snd (process_repositories env org fo cfg dry (take j rs) 0
                      (snd (process_repositories env org fo cfg dry [r] 0 w)))))"
      by (rule Cons.IH [OF j])
    also have "snd (process_repositories env org fo cfg dry (take j rs) 0
                      (snd (process_repositories env org fo cfg dry [r] 0 w)))
        = snd (process_repositories env org fo cfg dry (r # take j rs) 0 w)"
      by (rule process_repositories_world_Cons [symmetric])
    finally show ?thesis using Suc by (simp del: process_repositories.simps)
  qed
qed

text \<open>
  C3.  Let the call of \<open>sync_repository\<close> for the repository at position \<open>k\<close> of the
  list raise an exception \<open>e\<close>.  Then the loop still calls \<open>sync_repository\<close> once for
  every repository of the list; the count of successes it ends with is the number
  of the other repositories for which the call returned \<^verbatim>\<open>True\<close>; and, after the
  repositories before position \<open>k\<close>, the loop prints the failure and its traceback and
  goes on with the repositories after position \<open>k\<close>, its count unchanged.  The loop
  has no way of ending but by returning its count.
\<close>

theorem batch_isolation:
  assumes "k < length repos"
    and "outcomes env org fork_owner cfg dry_run repos w ! k = Inl e"
  shows "length (outcomes env org fork_owner cfg dry_run repos w) = length repos
       \<and> fst (process_repositories env org fork_owner cfg dry_run repos 0 w)
           = length (filter (\<lambda>i. i \<noteq> k
                                \<and> outcomes env org fork_owner cfg dry_run repos w ! i = Inr True)
                       [0..<length repos])
       \<and> (case process_repositories env org fork_owner cfg dry_run (take k repos) 0 w of
            (c1, w1) \<Rightarrow>
              fst (sync_repository env org (repos ! k) fork_owner cfg dry_run w1) = Inl e
              \<and> process_repositories env org fork_owner cfg dry_run repos 0 w
                  = process_repositories env org fork_owner cfg dry_run (drop (Suc k) repos) c1
                      (emit (Traceback e)
                         (print [S ''Failed to process '', S (repos ! k), S '': '', E e]
                            (snd (sync_repository env org (repos ! k) fork_owner cfg dry_run w1)))))"
proof -
  let ?os = "outcomes env org fork_owner cfg dry_run repos w"
  have 1: "length ?os = length repos" by simp
  have ne: "?os ! k \<noteq> Inr True" using assms(2) by simp
  have 2: "fst (process_repositories env org fork_owner cfg dry_run repos 0 w)
      = length (filter (\<lambda>i. i \<noteq> k \<and> ?os ! i = Inr True) [0..<length repos])"
    using process_repositories_count [of env org fork_owner cfg dry_run repos 0 w]
      count_others [of k ?os "Inr True"] assms(1) ne by simp
  obtain c1 w1 where p: "process_repositories env org fork_owner cfg dry_run (take k repos) 0 w
      = (c1, w1)"
    by (metis prod.exhaust)
  have s: "fst (sync_repository env org (repos ! k) fork_owner cfg dry_run w1) = Inl e"
    using outcomes_nth [OF assms(1), of env org fork_owner cfg dry_run w] assms(2) p by simp
  obtain w2 where s': "sync_repository env org (repos ! k) fork_owner cfg dry_run w1 = (Inl e, w2)"
    using s by (metis prod.collapse)
  have split: "repos = take k repos @ (repos ! k # drop (Suc k) repos)"
    using assms(1) by (simp add: id_take_nth_drop [symmetric])
  have "process_repositories env org fork_owner cfg dry_run
          (take k repos @ (repos ! k # drop (Suc k) repos)) 0 w
      = process_repositories env org fork_owner cfg dry_run (repos ! k # drop (Suc k) repos) c1 w1"
    unfolding process_repositories_append p by simp
  also have "\<dots> = process_repositories env org fork_owner cfg dry_run (drop (Suc k) repos) c1
                      (emit (Traceback e)
                         (print [S ''Failed to process '', S (repos ! k), S '': '', E e] w2))"
    unfolding process_repositories_Cons [OF s'] by simp
  finally have 3: "process_repositories env org fork_owner cfg dry_run repos 0 w
      = process_repositories env org fork_owner cfg dry_run (drop (Suc k) repos) c1
                      (emit (Traceback e)
                         (print [S ''Failed to process '', S (repos ! k), S '': '', E e] w2))"
    using split by simp
  show ?thesis
    using 1 2 3 s s' p by simp
qed

lemmas sync_eval = sync_repository_def sync_attempt_def publish_changes_def cleanup_def
  driver_eval path_eval

lemma outcomes_tmp_fails:
  "outcomes env_tmp_fails ''complytime'' ''bot'' cfg_codeowners True [''a'', ''b'', ''c''] world_src
     = [Inr True, Inl (OtherException ''No space left on device''), Inr True]"
  by (simp add: sync_eval env_tmp_fails_def env0_def cfg_codeowners_def rule_codeowners_def
        world_src_def)

theorem batch_isolation_witness:
  "outcomes env_tmp_fails ''complytime'' ''bot'' cfg_codeowners True [''a'', ''b'', ''c''] world_src
     ! 1 = Inl (OtherException ''No space left on device'')
   \<and> length (outcomes env_tmp_fails ''complytime'' ''bot'' cfg_codeowners True
               [''a'', ''b'', ''c''] world_src) = 3
   \<and> fst (process_repositories env_tmp_fails ''complytime'' ''bot'' cfg_codeowners True
            [''a'', ''b'', ''c''] 0 world_src) = 2"
proof -
  have k: "(1::nat) < length [''a'', ''b'', ''c'']" by simp
  have r: "outcomes env_tmp_fails ''complytime'' ''bot'' cfg_codeowners True
             [''a'', ''b'', ''c''] world_src ! 1 = Inl (OtherException ''No space left on device'')"
    by (subst outcomes_tmp_fails) simp
  note T = batch_isolation [OF k r]
  have "[0..<3] = [0, 1, 2::nat]" by (simp add: upt_rec)
  then have c: "fst (process_repositories env_tmp_fails ''complytime'' ''bot'' cfg_codeowners True
            [''a'', ''b'', ''c''] 0 world_src) = 2"
    using T [THEN conjunct2, THEN conjunct1] unfolding outcomes_tmp_fails by simp
  have l: "length (outcomes env_tmp_fails ''complytime'' ''bot'' cfg_codeowners True
               [''a'', ''b'', ''c''] world_src) = 3"
    by (subst outcomes_tmp_fails) simp
  show ?thesis
    using r c l by blast
qed

section \<open>Selection of the repositories\<close>

lemma select_repositories_excluded:
  "set (fst (select_repositories cfg repos_arg repositories w))
     \<inter> set (case config_exclude_repos cfg of None \<Rightarrow> [''org-infra''] | Some ex \<Rightarrow> ex) = {}"
  by (auto simp: select_repositories_def Let_def split: option.splits list.splits)

lemma select_repositories_default:
  "config_exclude_repos cfg = None \<or> ''org-infra'' \<in> set (the (config_exclude_repos cfg))
   \<Longrightarrow> ''org-infra'' \<notin> set (fst (select_repositories cfg repos_arg repositories w))"
  using select_repositories_excluded [of cfg repos_arg repositories w]
  by (auto split: option.splits)

lemma validate_get_user: "validate_github_api_request ''https://api.github.com/user'' ''GET''"
  by (simp add: regex_eval)

lemma sync_repository_no_files_result:
  assumes "files_to_sync cfg = None \<or> files_to_sync cfg = Some []"
  shows "sync_repository env org repo_name fork_owner cfg dry_run w
           = (Inr False, print [S ''No files configured for sync''] (banner org repo_name w))"
  using assms by (auto simp: sync_repository_def)

lemma in_events_print: "e \<in> set (events w) \<Longrightarrow> e \<in> set (events (print ps w))"
  by (simp add: events_print)

lemma in_events_banner: "e \<in> set (events w) \<Longrightarrow> e \<in> set (events (banner org r w))"
  by (simp add: events_banner)

lemma process_repositories_no_files_keeps:
  assumes "files_to_sync cfg = None"
  shows "e \<in> set (events w)
     \<Longrightarrow> e \<in> set (events (snd (process_repositories env org fo cfg dry rs c w)))"
proof (induction rs arbitrary: c w)
  case Nil
  then show ?case by simp
next
  case (Cons r rs)
  have "e \<in> set (events (print [S ''No files configured for sync''] (banner org r w)))"
    using Cons.prems by (simp add: in_events_print in_events_banner)
  then show ?case
    using Cons.IH assms by (simp add: sync_repository_no_files_result)
qed

lemma process_repositories_no_files_first:
  assumes "files_to_sync cfg = None"
  shows "Print [S ''Processing: '', S org, S ''/'', S r]
     \<in> set (events (snd (process_repositories env org fo cfg dry (r # rs) c w)))"
proof -
  have "Print [S ''Processing: '', S org, S ''/'', S r]
      \<in> set (events (print [S ''No files configured for sync''] (banner org r w)))"
    by (simp add: events_print events_banner)
  then show ?thesis
    using process_repositories_no_files_keeps [OF assms] assms
    by (simp add: sync_repository_no_files_result)
qed

text \<open>
  C9.  It is stated that \<^verbatim>\<open>org-infra\<close> is never among the repositories that are
  processed, whatever the configuration gives as \<^verbatim>\<open>exclude_repos\<close>, and the comment
  in \<^verbatim>\<open>main\<close> says that \<^verbatim>\<open>org-infra\<close> itself is skipped.  The code does not do
  that: it takes \<^verbatim>\<open>['org-infra']\<close> only as the default for a missing key: with
  \<^verbatim>\<open>exclude_repos: [docs]\<close> and a peribolos document that lists \<^verbatim>\<open>org-infra\<close>,
  \<^verbatim>\<open>docs\<close> and \<^verbatim>\<open>tool\<close>, the selection keeps \<^verbatim>\<open>org-infra\<close>, and \<open>main\<close> runs to its
  end and calls \<open>sync_repository\<close> for \<^verbatim>\<open>org-infra\<close> (the first line that call
  prints is among the events).
\<close>

theorem org_infra_processed:
  "fst (select_repositories cfg_exclude_docs None [''org-infra'', ''docs'', ''tool''] world_main)
     = [''org-infra'', ''tool'']
   \<and> fst (main env_main args_main world_main) = Returned
   \<and> Print [S ''Processing: '', S ''complytime'', S ''/'', S ''org-infra'']
       \<in> set (events (snd (main env_main args_main world_main)))"
proof -
  have a: "fst (select_repositories cfg_exclude_docs None [''org-infra'', ''docs'', ''tool''] world_main)
     = [''org-infra'', ''tool'']"
    by (simp add: select_repositories_def cfg_exclude_docs_def)
  define W1 where "W1 = snd (get_authenticated_user env_main world_main)"
  have 1: "get_authenticated_user env_main world_main = (Some ''bot'', W1)"
    unfolding W1_def using validate_get_user
    by (simp add: prod_eq_iff get_authenticated_user_def github_api_request_def GITHUB_API_def
          env_main_def env0_def)
  have f1: "fs W1 = fs world_main"
    unfolding W1_def using validate_get_user
    by (simp add: get_authenticated_user_def github_api_request_def GITHUB_API_def
          env_main_def env0_def emit_def)
  define W2 where "W2 = print [S ''Authenticated as: '', S ''bot''] W1"
  have 2: "load_sync_config env_main ''sync-config.yml'' W2 = Inr cfg_exclude_docs"
    by (simp add: load_sync_config_def W2_def f1 world_main_def env_main_def env0_def)
  define W3 where "W3 = snd (fetch_peribolos_file env_main ''complytime'' W2)"
  have 3: "fetch_peribolos_file env_main ''complytime'' W2
      = (Value (Some [(''complytime'', Some [''org-infra'', ''docs'', ''tool''])]), W3)"
    unfolding W3_def
    by (simp add: prod_eq_iff fetch_peribolos_file_def Let_def env_main_def env0_def path_eval
          emit_def print_def)
  define W4 where "W4 = snd (extract_repositories
      (Some [(''complytime'', Some [''org-infra'', ''docs'', ''tool''])]) ''complytime'' W3)"
  have 4: "extract_repositories
      (Some [(''complytime'', Some [''org-infra'', ''docs'', ''tool''])]) ''complytime'' W3
      = ([''org-infra'', ''docs'', ''tool''], W4)"
    unfolding W4_def by (simp add: extract_repositories_def)
  have 5: "select_repositories cfg_exclude_docs None [''org-infra'', ''docs'', ''tool''] W4
      = ([''org-infra'', ''tool''], W4)"
    by (simp add: select_repositories_def cfg_exclude_docs_def)
  have nf: "files_to_sync cfg_exclude_docs = None" by (simp add: cfg_exclude_docs_def)
  have tok: "GITHUB_TOKEN env_main = Some ''t0ken''" by (simp add: env_main_def env0_def)
  have b: "fst (main env_main args_main world_main) = Returned
   \<and> Print [S ''Processing: '', S ''complytime'', S ''/'', S ''org-infra'']
       \<in> set (events (snd (main env_main args_main world_main)))"
    unfolding main_def
    by (simp add: tok 1 args_main_def W2_def [symmetric] 2 3 4 5 case_prod_beta Let_def
          in_events_print process_repositories_no_files_first [OF nf]
        del: process_repositories.simps)
  show ?thesis using a b by simp
qed

section \<open>The file reconciler\<close>

lemmas rule_defs = rule_dest_def rule_source_path_def rule_dest_path_def rule_excluded_def
  rule_active_def rule_stale_def

lemma process_file_config_missing:
  assumes "\<not> os_path_exists (fs w) (rule_source_path source_root fc)"
  shows "process_file_config source_root repo_path repo_name dry_run fc files_changed w
           = (Inr files_changed, print [S ''Source file not found: '', S (source fc)] w)"
  using assms by (simp add: process_file_config_def rule_defs Let_def)

lemma process_file_config_excluded:
  assumes "os_path_exists (fs w) (rule_source_path source_root fc)"
    and "rule_excluded repo_name fc"
  shows "process_file_config source_root repo_path repo_name dry_run fc files_changed w
           = (Inr files_changed, print [S (source fc), S '' excluded for this repo''] w)"
  using assms by (simp add: process_file_config_def rule_defs Let_def)

lemma process_file_config_dry:
  assumes "rule_active (fs w) source_root repo_name fc"
  shows "\<exists>ps. process_file_config source_root repo_path repo_name True fc files_changed w
           = (Inr (if rule_stale (fs w) source_root repo_path fc
                   then files_changed @ [rule_dest fc] else files_changed),
              print ps w)"
  using assms
  by (auto simp: process_file_config_def rule_defs Let_def compare_files_def filecmp_cmp_def
        os_path_exists_def split: option.splits)

lemma process_file_config_real:
  assumes "rule_active (fs w) source_root repo_name fc"
  shows "\<exists>w1. process_file_config source_root repo_path repo_name False fc files_changed w
           = (Inr (if rule_stale (fs w) source_root repo_path fc
                   then files_changed @ [rule_dest fc] else files_changed), w1)
         \<and> fs w1 = (if rule_stale (fs w) source_root repo_path fc
                    then (fs w)(rule_dest_path repo_path fc
                                  := fs w (rule_source_path source_root fc))
                    else fs w)"
  using assms
  by (auto simp: process_file_config_def rule_defs Let_def sync_file_def compare_files_def
        filecmp_cmp_def shutil_copy2_def os_makedirs_def os_path_exists_def emit_def print_def
      split: option.splits)


lemma process_file_config_result:
  "\<exists>w1. process_file_config source_root repo_path repo_name dry_run fc files_changed w
           = (Inr (if rule_active (fs w) source_root repo_name fc
                      \<and> rule_stale (fs w) source_root repo_path fc
                   then files_changed @ [rule_dest fc] else files_changed), w1)
         \<and> fs w1 = (if \<not> dry_run \<and> rule_active (fs w) source_root repo_name fc
                         \<and> rule_stale (fs w) source_root repo_path fc
                    then (fs w)(rule_dest_path repo_path fc
                                  := fs w (rule_source_path source_root fc))
                    else fs w)"
proof (cases "rule_active (fs w) source_root repo_name fc")
  case False
  show ?thesis
  proof (cases "os_path_exists (fs w) (rule_source_path source_root fc)")
    case True
    then have "rule_excluded repo_name fc"
      using False by (simp add: rule_active_def)
    then show ?thesis
      using process_file_config_excluded [OF True, of repo_name repo_path dry_run files_changed]
        False
      by simp
  next
    case False
    then show ?thesis
      using process_file_config_missing [OF False, of repo_path repo_name dry_run files_changed]
      by (simp add: rule_active_def)
  qed
next
  case True
  note act = True
  show ?thesis
  proof (cases dry_run)
    case True
    then show ?thesis
      using process_file_config_dry [OF act, of repo_path files_changed] act
      by auto
  next
    case False
    then show ?thesis
      using process_file_config_real [OF act, of repo_path files_changed] act
      by auto
  qed
qed

lemma process_files_Cons:
  assumes "process_file_config source_root repo_path repo_name dry_run fc files_changed w
             = (Inr files_changed1, w1)"
  shows "process_files source_root repo_path repo_name dry_run (fc # rest) files_changed w
           = process_files source_root repo_path repo_name dry_run rest files_changed1 w1"
  using assms by simp

lemma process_files_append:
  "process_files source_root repo_path repo_name dry_run (xs @ ys) files_changed w =
     (case process_files source_root repo_path repo_name dry_run xs files_changed w of
        (Inl e, w1) \<Rightarrow> (Inl e, w1)
      | (Inr files_changed1, w1) \<Rightarrow>
          process_files source_root repo_path repo_name dry_run ys files_changed1 w1)"
proof (induction xs arbitrary: files_changed w)
  case Nil
  then show ?case by simp
next
  case (Cons fc xs)
  obtain w1 a1 where s: "process_file_config source_root repo_path repo_name dry_run fc
                      files_changed w = (Inr a1, w1)"
    using process_file_config_result [of source_root repo_path repo_name dry_run fc files_changed w]
    by blast
  show ?case
    unfolding append_Cons process_files_Cons [OF s] by (rule Cons.IH)
qed

text \<open>The loop never raises, and its result depends on the world through the files only.\<close>

lemma process_files_total:
  "\<exists>files_changed1 w1.
     process_files source_root repo_path repo_name dry_run rules files_changed w
       = (Inr files_changed1, w1)"
proof (induction rules arbitrary: files_changed w)
  case Nil
  then show ?case by simp
next
  case (Cons fc rest)
  obtain w1 a1 where s: "process_file_config source_root repo_path repo_name dry_run fc
                      files_changed w = (Inr a1, w1)"
    using process_file_config_result [of source_root repo_path repo_name dry_run fc files_changed w]
    by blast
  show ?case
    unfolding process_files_Cons [OF s] by (rule Cons.IH)
qed

lemma process_files_files_only:
  assumes "fs w = fs w'"
  shows "fst (process_files source_root repo_path repo_name dry_run rules files_changed w)
           = fst (process_files source_root repo_path repo_name dry_run rules files_changed w')
       \<and> fs (snd (process_files source_root repo_path repo_name dry_run rules files_changed w))
           = fs (snd (process_files source_root repo_path repo_name dry_run rules files_changed w'))"
  using assms
proof (induction rules arbitrary: files_changed w w')
  case Nil
  then show ?case by simp
next
  case (Cons fc rest)
  obtain w1 a1 where s: "process_file_config source_root repo_path repo_name dry_run fc
                      files_changed w = (Inr a1, w1)"
    and a1: "a1 = (if rule_active (fs w) source_root repo_name fc
                      \<and> rule_stale (fs w) source_root repo_path fc
                   then files_changed @ [rule_dest fc] else files_changed)"
    and f1: "fs w1 = (if \<not> dry_run \<and> rule_active (fs w) source_root repo_name fc
                         \<and> rule_stale (fs w) source_root repo_path fc
                    then (fs w)(rule_dest_path repo_path fc
                                  := fs w (rule_source_path source_root fc))
                    else fs w)"
    using process_file_config_result [of source_root repo_path repo_name dry_run fc files_changed w]
    by blast
  obtain w1' a1' where s': "process_file_config source_root repo_path repo_name dry_run fc
                      files_changed w' = (Inr a1', w1')"
    and a1': "a1' = (if rule_active (fs w') source_root repo_name fc
                      \<and> rule_stale (fs w') source_root repo_path fc
                   then files_changed @ [rule_dest fc] else files_changed)"
    and f1': "fs w1' = (if \<not> dry_run \<and> rule_active (fs w') source_root repo_name fc
                         \<and> rule_stale (fs w') source_root repo_path fc
                    then (fs w')(rule_dest_path repo_path fc
                                  := fs w' (rule_source_path source_root fc))
                    else fs w')"
    using process_file_config_result [of source_root repo_path repo_name dry_run fc files_changed w']
    by blast
  have "a1 = a1'" and "fs w1 = fs w1'"
    using a1 a1' f1 f1' Cons.prems by simp_all
  then show ?case
    unfolding process_files_Cons [OF s] process_files_Cons [OF s']
    using Cons.IH [of w1 w1' a1] by simp
qed

text \<open>A dry run changes no file, and lists the stale active rules in order.\<close>

lemma process_files_dry:
  "\<exists>w1. process_files source_root repo_path repo_name True rules files_changed w
          = (Inr (files_changed @ map rule_dest
                    (filter (\<lambda>fc. rule_active (fs w) source_root repo_name fc
                                 \<and> rule_stale (fs w) source_root repo_path fc) rules)), w1)
        \<and> fs w1 = fs w"
proof (induction rules arbitrary: files_changed w)
  case Nil
  then show ?case by simp
next
  case (Cons fc rest)
  obtain w1 where s: "process_file_config source_root repo_path repo_name True fc files_changed w
           = (Inr (if rule_active (fs w) source_root repo_name fc
                      \<and> rule_stale (fs w) source_root repo_path fc
                   then files_changed @ [rule_dest fc] else files_changed), w1)"
    and f1: "fs w1 = fs w"
    using process_file_config_result [of source_root repo_path repo_name True fc files_changed w]
    by auto
  show ?case
    unfolding process_files_Cons [OF s]
    using Cons.IH [of "if rule_active (fs w) source_root repo_name fc
                      \<and> rule_stale (fs w) source_root repo_path fc
                   then files_changed @ [rule_dest fc] else files_changed" w1] f1
    by auto
qed

text \<open>A file that is the destination of no rule is left as it is.\<close>

lemma process_files_other_path:
  assumes "\<forall>fc\<in>set rules. rule_dest_path repo_path fc \<noteq> p"
  shows "fs (snd (process_files source_root repo_path repo_name dry_run rules files_changed w)) p
           = fs w p"
  using assms
proof (induction rules arbitrary: files_changed w)
  case Nil
  then show ?case by simp
next
  case (Cons fc rest)
  obtain w1 a1 where s: "process_file_config source_root repo_path repo_name dry_run fc
                      files_changed w = (Inr a1, w1)"
    and f1: "fs w1 = (if \<not> dry_run \<and> rule_active (fs w) source_root repo_name fc
                         \<and> rule_stale (fs w) source_root repo_path fc
                    then (fs w)(rule_dest_path repo_path fc
                                  := fs w (rule_source_path source_root fc))
                    else fs w)"
    using process_file_config_result [of source_root repo_path repo_name dry_run fc files_changed w]
    by blast
  have "rule_dest_path repo_path fc \<noteq> p" using Cons.prems by simp
  then have "fs w1 p = fs w p" using f1 by (simp add: fun_upd_def)
  then show ?case
    unfolding process_files_Cons [OF s] using Cons.IH [of a1 w1] Cons.prems by simp
qed



lemma process_files_skip:
  assumes "\<exists>ps. process_file_config source_root repo_path repo_name dry_run fc a1 w1
                  = (Inr a1, print ps w1)"
  shows "fst (process_files source_root repo_path repo_name dry_run (fc # post) a1 w1)
           = fst (process_files source_root repo_path repo_name dry_run post a1 w1)
       \<and> fs (snd (process_files source_root repo_path repo_name dry_run (fc # post) a1 w1))
           = fs (snd (process_files source_root repo_path repo_name dry_run post a1 w1))"
proof -
  obtain ps where s: "process_file_config source_root repo_path repo_name dry_run fc a1 w1
                  = (Inr a1, print ps w1)"
    using assms by blast
  have f: "fs (print ps w1) = fs w1" by simp
  show ?thesis
    unfolding process_files_Cons [OF s]
    using process_files_files_only [OF f] by blast
qed

lemma process_files_skip_inside:
  assumes "\<And>a1 w1. fs w1 = fs (snd (process_files source_root repo_path repo_name dry_run pre
                                           files_changed w))
             \<Longrightarrow> \<exists>ps. process_file_config source_root repo_path repo_name dry_run fc a1 w1
                  = (Inr a1, print ps w1)"
  shows "fst (process_files source_root repo_path repo_name dry_run (pre @ fc # post) files_changed w)
           = fst (process_files source_root repo_path repo_name dry_run (pre @ post) files_changed w)
       \<and> fs (snd (process_files source_root repo_path repo_name dry_run (pre @ fc # post)
                     files_changed w))
           = fs (snd (process_files source_root repo_path repo_name dry_run (pre @ post)
                        files_changed w))"
proof -
  obtain a1 w1 where p: "process_files source_root repo_path repo_name dry_run pre files_changed w
                           = (Inr a1, w1)"
    using process_files_total by blast
  have "\<exists>ps. process_file_config source_root repo_path repo_name dry_run fc a1 w1
                  = (Inr a1, print ps w1)"
    using assms [of w1 a1] p by simp
  then show ?thesis
    unfolding process_files_append p
    using process_files_skip [of source_root repo_path repo_name dry_run fc a1 w1 post] by simp
qed

lemma process_files_origin:
  assumes "process_files source_root repo_path repo_name dry_run rules files_changed w
             = (Inr files_changed1, w1)"
  shows "set files_changed1
           \<subseteq> set files_changed \<union> rule_dest ` {fc \<in> set rules. \<not> rule_excluded repo_name fc}"
  using assms
proof (induction rules arbitrary: files_changed w)
  case Nil
  then show ?case by simp
next
  case (Cons fc rest)
  obtain w2 a2 where s: "process_file_config source_root repo_path repo_name dry_run fc
                      files_changed w = (Inr a2, w2)"
    and a2: "a2 = (if rule_active (fs w) source_root repo_name fc
                      \<and> rule_stale (fs w) source_root repo_path fc
                   then files_changed @ [rule_dest fc] else files_changed)"
    using process_file_config_result [of source_root repo_path repo_name dry_run fc files_changed w]
    by blast
  have r: "process_files source_root repo_path repo_name dry_run rest a2 w2 = (Inr files_changed1, w1)"
    using Cons.prems unfolding process_files_Cons [OF s] .
  have 1: "set files_changed1
           \<subseteq> set a2 \<union> rule_dest ` {fc \<in> set rest. \<not> rule_excluded repo_name fc}"
    using Cons.IH [OF r] .
  have 2: "set a2 \<subseteq> set files_changed
                      \<union> rule_dest ` {r \<in> {fc}. \<not> rule_excluded repo_name r}"
    using a2 by (auto simp: rule_active_def)
  show ?case using 1 2 by auto
qed

text \<open>
  C7.  Let a rule name the current repository under \<^verbatim>\<open>exclude_repos\<close>.  In a dry run
  and in a real run alike, whatever the files hold: the loop body for that rule
  leaves the list of changed files and the files as they are; the whole loop over a
  list that contains the rule ends with the same list of changed files, and the same
  files, as the loop over the list without it; and when every rule with this rule's
  destination excludes the repository, that destination is not in the final list
  (unless it was in the list the loop started with).
\<close>

theorem excluded_rule_never_changes:
  assumes "exclude_repos fc = Some ex" and "repo_name \<in> set ex"
  shows "fst (process_file_config source_root repo_path repo_name dry_run fc files_changed w)
           = Inr files_changed
       \<and> fs (snd (process_file_config source_root repo_path repo_name dry_run fc files_changed w))
           = fs w
       \<and> fst (process_files source_root repo_path repo_name dry_run (pre @ fc # post) files_changed w)
           = fst (process_files source_root repo_path repo_name dry_run (pre @ post) files_changed w)
       \<and> fs (snd (process_files source_root repo_path repo_name dry_run (pre @ fc # post)
                     files_changed w))
           = fs (snd (process_files source_root repo_path repo_name dry_run (pre @ post)
                        files_changed w))
       \<and> ((\<forall>r\<in>set rules. rule_dest r = rule_dest fc \<longrightarrow> rule_excluded repo_name r)
            \<longrightarrow> rule_dest fc \<notin> set files_changed
            \<longrightarrow> fst (process_files source_root repo_path repo_name dry_run rules files_changed w)
                  = Inr files_changed1
            \<longrightarrow> rule_dest fc \<notin> set files_changed1)"
proof -
  have ex: "rule_excluded repo_name fc"
    using assms by (simp add: rule_excluded_def)
  have step: "\<And>a1 w1. \<exists>ps. process_file_config source_root repo_path repo_name dry_run fc a1 w1
                  = (Inr a1, print ps w1)"
  proof -
    fix a1 w1
    show "\<exists>ps. process_file_config source_root repo_path repo_name dry_run fc a1 w1
                  = (Inr a1, print ps w1)"
    proof (cases "os_path_exists (fs w1) (rule_source_path source_root fc)")
      case True
      show ?thesis
        using process_file_config_excluded [OF True ex, of repo_path dry_run a1] by blast
    next
      case False
      show ?thesis
        using process_file_config_missing [OF False, of repo_path repo_name dry_run a1] by blast
    qed
  qed
  obtain ps where s: "process_file_config source_root repo_path repo_name dry_run fc files_changed w
                  = (Inr files_changed, print ps w)"
    using step by blast
  have a: "fst (process_file_config source_root repo_path repo_name dry_run fc files_changed w)
           = Inr files_changed
       \<and> fs (snd (process_file_config source_root repo_path repo_name dry_run fc files_changed w))
           = fs w"
    unfolding s by simp
  have b: "fst (process_files source_root repo_path repo_name dry_run (pre @ fc # post) files_changed w)
           = fst (process_files source_root repo_path repo_name dry_run (pre @ post) files_changed w)
       \<and> fs (snd (process_files source_root repo_path repo_name dry_run (pre @ fc # post)
                     files_changed w))
           = fs (snd (process_files source_root repo_path repo_name dry_run (pre @ post)
                        files_changed w))"
    by (rule process_files_skip_inside) (rule step)
  have c: "(\<forall>r\<in>set rules. rule_dest r = rule_dest fc \<longrightarrow> rule_excluded repo_name r)
            \<longrightarrow> rule_dest fc \<notin> set files_changed
            \<longrightarrow> fst (process_files source_root repo_path repo_name dry_run rules files_changed w)
                  = Inr files_changed1
            \<longrightarrow> rule_dest fc \<notin> set files_changed1"
  proof (intro impI)
    assume all: "\<forall>r\<in>set rules. rule_dest r = rule_dest fc \<longrightarrow> rule_excluded repo_name r"
      and nin: "rule_dest fc \<notin> set files_changed"
      and res: "fst (process_files source_root repo_path repo_name dry_run rules files_changed w)
                  = Inr files_changed1"
    obtain w1 where "process_files source_root repo_path repo_name dry_run rules files_changed w
                  = (Inr files_changed1, w1)"
      using res by (metis prod.collapse)
    then have "set files_changed1
           \<subseteq> set files_changed \<union> rule_dest ` {r \<in> set rules. \<not> rule_excluded repo_name r}"
      by (rule process_files_origin)
    then show "rule_dest fc \<notin> set files_changed1"
      using all nin by auto
  qed
  show ?thesis using a b c by blast
qed

lemmas reconcile_eval = process_file_config_def sync_file_def compare_files_def filecmp_cmp_def
  shutil_copy2_def os_makedirs_def print_def emit_def Let_def path_eval

theorem excluded_rule_never_changes_witness:
  "exclude_repos rule_excl = Some [''docs'']
   \<and> fs world_diff ''/tmp/t/docs/CODEOWNERS'' \<noteq> fs world_diff ''/src/CODEOWNERS''
   \<and> fst (process_file_config ''/src'' ''/tmp/t/docs'' ''docs'' False rule_excl [] world_diff) = Inr []
   \<and> fst (process_files ''/src'' ''/tmp/t/docs'' ''docs'' False [rule_excl] [] world_diff) = Inr []
   \<and> fst (process_files ''/src'' ''/tmp/t/docs'' ''docs'' True [rule_excl] [] world_diff) = Inr []
   \<and> fst (process_files ''/src'' ''/tmp/t/docs'' ''other'' False [rule_excl] [] world_diff)
       = Inr [''CODEOWNERS'']"
proof -
  have h1: "exclude_repos rule_excl = Some [''docs'']" by (simp add: rule_excl_def)
  have h2: "''docs'' \<in> set [''docs'']" by simp
  have d: "fs world_diff ''/tmp/t/docs/CODEOWNERS'' \<noteq> fs world_diff ''/src/CODEOWNERS''"
    by (simp add: world_diff_def)
  note T = excluded_rule_never_changes [OF h1 h2, of "''/src''" "''/tmp/t/docs''" _ "[]" world_diff
      "[]" "[]"]
  have a: "fst (process_file_config ''/src'' ''/tmp/t/docs'' ''docs'' False rule_excl [] world_diff)
             = Inr []"
    using T [of False] by blast
  have b: "fst (process_files ''/src'' ''/tmp/t/docs'' ''docs'' False [rule_excl] [] world_diff)
             = Inr []"
    using T [of False] by simp
  have c: "fst (process_files ''/src'' ''/tmp/t/docs'' ''docs'' True [rule_excl] [] world_diff)
             = Inr []"
    using T [of True] by simp
  have e: "fst (process_files ''/src'' ''/tmp/t/docs'' ''other'' False [rule_excl] [] world_diff)
       = Inr [''CODEOWNERS'']"
    by (simp add: reconcile_eval rule_excl_def world_diff_def)
  show ?thesis using h1 d a b c e by blast
qed

text \<open>
  C8.  Let the source path of a rule, resolved against the source root, not exist
  when the loop reaches the rule.  Then the loop body prints that the source file was
  not found and leaves the list of changed files as it is; it does not raise, and the
  loop goes on with the rules that follow, ending with the same list and the same
  files as without the rule.  When the source is missing before the loop starts, the
  same holds for a rule anywhere in the list, in a dry run always, and in a real run
  provided that no earlier rule has the missing source path as its destination path.
\<close>

theorem missing_source_skipped:
  assumes "\<not> os_path_exists (fs w) (rule_source_path source_root fc)"
  shows "process_file_config source_root repo_path repo_name dry_run fc files_changed w
           = (Inr files_changed, print [S ''Source file not found: '', S (source fc)] w)
       \<and> process_files source_root repo_path repo_name dry_run (fc # post) files_changed w
           = process_files source_root repo_path repo_name dry_run post files_changed
               (print [S ''Source file not found: '', S (source fc)] w)
       \<and> fst (process_files source_root repo_path repo_name dry_run (fc # post) files_changed w)
           = fst (process_files source_root repo_path repo_name dry_run post files_changed w)
       \<and> fs (snd (process_files source_root repo_path repo_name dry_run (fc # post) files_changed w))
           = fs (snd (process_files source_root repo_path repo_name dry_run post files_changed w))
       \<and> (dry_run \<or> (\<forall>r\<in>set pre. rule_dest_path repo_path r \<noteq> rule_source_path source_root fc)
            \<longrightarrow> fst (process_files source_root repo_path repo_name dry_run (pre @ fc # post)
                       files_changed w)
                  = fst (process_files source_root repo_path repo_name dry_run (pre @ post)
                          files_changed w)
                \<and> fs (snd (process_files source_root repo_path repo_name dry_run (pre @ fc # post)
                              files_changed w))
                  = fs (snd (process_files source_root repo_path repo_name dry_run (pre @ post)
                               files_changed w)))"
proof -
  let ?sp = "rule_source_path source_root fc"
  note s = process_file_config_missing [OF assms, of repo_path repo_name dry_run files_changed]
  have b: "process_files source_root repo_path repo_name dry_run (fc # post) files_changed w
           = process_files source_root repo_path repo_name dry_run post files_changed
               (print [S ''Source file not found: '', S (source fc)] w)"
    by (rule process_files_Cons [OF s])
  have c: "fst (process_files source_root repo_path repo_name dry_run (fc # post) files_changed w)
           = fst (process_files source_root repo_path repo_name dry_run post files_changed w)
       \<and> fs (snd (process_files source_root repo_path repo_name dry_run (fc # post) files_changed w))
           = fs (snd (process_files source_root repo_path repo_name dry_run post files_changed w))"
    using process_files_skip [of source_root repo_path repo_name dry_run fc files_changed w post] s
    by blast
  have d: "dry_run \<or> (\<forall>r\<in>set pre. rule_dest_path repo_path r \<noteq> ?sp)
            \<longrightarrow> fst (process_files source_root repo_path repo_name dry_run (pre @ fc # post)
                       files_changed w)
                  = fst (process_files source_root repo_path repo_name dry_run (pre @ post)
                          files_changed w)
                \<and> fs (snd (process_files source_root repo_path repo_name dry_run (pre @ fc # post)
                              files_changed w))
                  = fs (snd (process_files source_root repo_path repo_name dry_run (pre @ post)
                               files_changed w))"
  proof
    assume h: "dry_run \<or> (\<forall>r\<in>set pre. rule_dest_path repo_path r \<noteq> ?sp)"
    have keep: "fs (snd (process_files source_root repo_path repo_name dry_run pre files_changed w))
                  ?sp = fs w ?sp"
    proof (cases dry_run)
      case True
      then show ?thesis
        using process_files_dry [of source_root repo_path repo_name pre files_changed w] by auto
    next
      case False
      then have "\<forall>r\<in>set pre. rule_dest_path repo_path r \<noteq> ?sp" using h by simp
      then show ?thesis by (rule process_files_other_path)
    qed
    show "fst (process_files source_root repo_path repo_name dry_run (pre @ fc # post)
                       files_changed w)
                  = fst (process_files source_root repo_path repo_name dry_run (pre @ post)
                          files_changed w)
                \<and> fs (snd (process_files source_root repo_path repo_name dry_run (pre @ fc # post)
                              files_changed w))
                  = fs (snd (process_files source_root repo_path repo_name dry_run (pre @ post)
                               files_changed w))"
    proof (rule process_files_skip_inside)
      fix a1 and w1 :: world
      assume "fs w1 = fs (snd (process_files source_root repo_path repo_name dry_run pre
                                           files_changed w))"
      then have "\<not> os_path_exists (fs w1) ?sp"
        using keep assms by (simp add: os_path_exists_def)
      then show "\<exists>ps. process_file_config source_root repo_path repo_name dry_run fc a1 w1
                  = (Inr a1, print ps w1)"
        using process_file_config_missing [of w1 source_root fc repo_path repo_name dry_run a1]
        by blast
    qed
  qed
  show ?thesis using s b c d by blast
qed

theorem missing_source_skipped_witness:
  "\<not> os_path_exists (fs world_diff) (rule_source_path ''/src'' rule_missing)
   \<and> process_file_config ''/src'' ''/tmp/t/docs'' ''docs'' False rule_missing [] world_diff
       = (Inr [], print [S ''Source file not found: '', S ''SECURITY.md''] world_diff)
   \<and> fst (process_files ''/src'' ''/tmp/t/docs'' ''docs'' False [rule_missing, rule_codeowners] []
            world_diff) = Inr [''CODEOWNERS'']"
proof -
  have h: "\<not> os_path_exists (fs world_diff) (rule_source_path ''/src'' rule_missing)"
    by (simp add: rule_source_path_def rule_missing_def world_diff_def path_eval)
  note T = missing_source_skipped [OF h, of "''/tmp/t/docs''" "''docs''" False "[]"
      "[rule_codeowners]" "[]"]
  have a: "process_file_config ''/src'' ''/tmp/t/docs'' ''docs'' False rule_missing [] world_diff
       = (Inr [], print [S ''Source file not found: '', S ''SECURITY.md''] world_diff)"
    using T [THEN conjunct1] by (simp add: rule_missing_def)
  have r: "fst (process_files ''/src'' ''/tmp/t/docs'' ''docs'' False [rule_codeowners] [] world_diff)
      = Inr [''CODEOWNERS'']"
    by (simp add: reconcile_eval rule_codeowners_def world_diff_def)
  have b: "fst (process_files ''/src'' ''/tmp/t/docs'' ''docs'' False [rule_missing, rule_codeowners] []
            world_diff) = Inr [''CODEOWNERS'']"
    using T [THEN conjunct2, THEN conjunct2, THEN conjunct1] r by simp
  show ?thesis using h a b by blast
qed

text \<open>Relative destinations, joined to one working tree, are distinct files.\<close>

lemma os_path_join_relative_inj:
  assumes "take 1 a \<noteq> ''/''" and "take 1 b \<noteq> ''/''"
    and "os_path_join repo_path a = os_path_join repo_path b"
  shows "a = b"
proof -
  have na: "\<not> (a \<noteq> [] \<and> hd a = CHR ''/'')" using assms(1) by (cases a) auto
  have nb: "\<not> (b \<noteq> [] \<and> hd b = CHR ''/'')" using assms(2) by (cases b) auto
  show ?thesis
    using assms(3) na nb by (auto simp: os_path_join_def split: if_splits)
qed

lemma relative_destinations_distinct:
  assumes "\<forall>fc\<in>set rules. take 1 (rule_dest fc) \<noteq> ''/''"
  shows "\<forall>a\<in>set rules. \<forall>b\<in>set rules.
           rule_dest_path repo_path a = rule_dest_path repo_path b \<longrightarrow> rule_dest a = rule_dest b"
  using assms os_path_join_relative_inj unfolding rule_dest_path_def by blast


lemma copied_print [simp]: "copied (print ps w) = copied w"
  by (simp add: copied_def events_print)





end
